theory Spec2Isabelle
  imports Complex_Main
begin

section \<open>JavaScript strings\<close>

text \<open>
  A JavaScript string is a sequence of UTF-16 code units; a code unit is modelled as a
  natural number. \<open>js\<close> turns an ASCII literal of the source into its code units.
\<close>

type_synonym jsstring = "nat list"

definition js :: "string \<Rightarrow> jsstring" where
  "js s = map of_char s"

text \<open>\<^verbatim>\<open>String.prototype.includes\<close>: the argument occurs as a contiguous run.\<close>

fun str_includes :: "jsstring \<Rightarrow> jsstring \<Rightarrow> bool" where
  "str_includes [] t = (t = [])"
| "str_includes (x # xs) t = (take (length t) (x # xs) = t \<or> str_includes xs t)"

text \<open>A string is truthy unless it is empty; \<open>undefined\<close> (\<open>None\<close>) is falsy.\<close>

fun truthy :: "jsstring option \<Rightarrow> bool" where
  "truthy None = False"
| "truthy (Some s) = (s \<noteq> [])"

section \<open>The webhook handler (api handler, \<^verbatim>\<open>part_000\<close>)\<close>

text \<open>
  \<^verbatim>\<open>req.query.secret\<close> has the type \<^verbatim>\<open>string | string[] | undefined\<close>: a repeated
  query parameter arrives as an array.
\<close>

datatype query_value = Missing | Single jsstring | Many "jsstring list"

record payload =
  body_email :: "jsstring option"
  body_name :: "jsstring option"

record request =
  req_method :: "jsstring option"
  query_secret :: query_value
  body :: "payload option"

record env =
  KAJABI_WEBHOOK_SECRET :: "jsstring option"
  VITE_SUPABASE_URL :: "jsstring option"
  SUPABASE_SERVICE_ROLE_KEY :: "jsstring option"
  SITE_URL :: "jsstring option"

text \<open>The error object of the identity provider and the arguments of one invite call.\<close>

record auth_error =
  message :: jsstring
  status :: "int option"

record invite_call =
  invite_email :: jsstring
  data_name :: jsstring
  redirectTo :: jsstring

datatype json =
    ErrorJson jsstring
  | MessageJson jsstring
  | InvitedJson jsstring jsstring

record response =
  status_code :: nat
  json_body :: json

text \<open>
  The client that \<^verbatim>\<open>createClient\<close> returns, as far as the handler uses it: its operation
  \<^verbatim>\<open>auth.admin.inviteUserByEmail\<close>, which answers with an error or with the new user's id.
\<close>

type_synonym supabase_client = "invite_call \<Rightarrow> auth_error + jsstring"

text \<open>
  What one run of the handler does: the response it sends (\<open>None\<close> when it throws before
  sending one), the lines it writes with \<^verbatim>\<open>console.error\<close>, and the invite calls it
  makes to the provider.
\<close>

record outcome =
  sent :: "response option"
  console :: "jsstring list"
  invited :: "invite_call list"

definition reply :: "nat \<Rightarrow> json \<Rightarrow> jsstring list \<Rightarrow> invite_call list \<Rightarrow> outcome" where
  "reply code j logs calls =
     \<lparr>sent = Some \<lparr>status_code = code, json_body = j\<rparr>, console = logs, invited = calls\<rparr>"

definition throws :: outcome where
  "throws = \<lparr>sent = None, console = [], invited = []\<rparr>"

text \<open>\<^verbatim>\<open>!secret\<close>: an absent parameter and the empty string are falsy, an array is truthy.\<close>

fun secret_falsy :: "query_value \<Rightarrow> bool" where
  "secret_falsy Missing = True"
| "secret_falsy (Single s) = (s = [])"
| "secret_falsy (Many ss) = False"

text \<open>\<^verbatim>\<open>secret !== process.env.KAJABI_WEBHOOK_SECRET\<close>: strict inequality.\<close>

fun secret_differs :: "query_value \<Rightarrow> jsstring option \<Rightarrow> bool" where
  "secret_differs Missing v = (v \<noteq> None)"
| "secret_differs (Single s) v = (v \<noteq> Some s)"
| "secret_differs (Many ss) v = True"

text \<open>\<^verbatim>\<open>body?.email\<close> and \<^verbatim>\<open>body?.name\<close>.\<close>

definition email_of :: "payload option \<Rightarrow> jsstring option" where
  "email_of b = (case b of None \<Rightarrow> None | Some p \<Rightarrow> body_email p)"

definition name_of :: "payload option \<Rightarrow> jsstring option" where
  "name_of b = (case b of None \<Rightarrow> None | Some p \<Rightarrow> body_name p)"

text \<open>\<^verbatim>\<open>x || fallback\<close> on an optional string.\<close>

definition or_else :: "jsstring option \<Rightarrow> jsstring \<Rightarrow> jsstring" where
  "or_else v d = (if truthy v then the v else d)"

text \<open>
  The handler, statement by statement in the order of the source. \<^verbatim>\<open>createClient\<close> of
  the provider's library is a parameter: given the URL and the key it returns a client,
  or throws (\<open>None\<close>), as it does on a URL that is not an http(s) URL. It is called after
  the configuration check and before the body is read; when it throws, so does the
  handler, and no response is sent.
\<close>

definition handler ::
  "env \<Rightarrow> (jsstring \<Rightarrow> jsstring \<Rightarrow> supabase_client option) \<Rightarrow> request \<Rightarrow> outcome" where
  "handler e createClient req =
    (if req_method req \<noteq> Some (js ''POST'') then
       reply 405 (ErrorJson (js ''Method not allowed'')) [] []
     else if secret_falsy (query_secret req)
           \<or> secret_differs (query_secret req) (KAJABI_WEBHOOK_SECRET e) then
       reply 401 (ErrorJson (js ''Unauthorized'')) [] []
     else if \<not> truthy (VITE_SUPABASE_URL e) \<or> \<not> truthy (SUPABASE_SERVICE_ROLE_KEY e) then
       reply 500 (ErrorJson (js ''Server misconfigured''))
         [js ''Missing VITE_SUPABASE_URL or SUPABASE_SERVICE_ROLE_KEY''] []
     else
       case createClient (the (VITE_SUPABASE_URL e)) (the (SUPABASE_SERVICE_ROLE_KEY e)) of
         None \<Rightarrow> throws
       | Some supabase \<Rightarrow>
           if \<not> truthy (email_of (body req)) then
             reply 400 (ErrorJson (js ''Missing email in webhook payload'')) [] []
           else
             let siteUrl = or_else (SITE_URL e) (js ''https://lmia-search-ui.vercel.app'');
                 call = \<lparr>invite_email = the (email_of (body req)),
                         data_name = or_else (name_of (body req)) [],
                         redirectTo = siteUrl\<rparr>
             in case supabase call of
                  Inl err \<Rightarrow>
                    if str_includes (message err) (js ''already'') \<or> status err = Some 422 then
                      reply 200 (MessageJson (js ''User already exists, skipping invite'')) []
                        [call]
                    else
                      reply 500 (ErrorJson (js ''Failed to invite user''))
                        [js ''Supabase invite error:''] [call]
                | Inr userId \<Rightarrow>
                    reply 200 (InvitedJson (js ''User invited successfully'') userId) [] [call])"

section \<open>Properties of the webhook handler\<close>

lemma secret_accepted_iff:
  "\<not> (secret_falsy q \<or> secret_differs q v) \<longleftrightarrow> (\<exists>s. s \<noteq> [] \<and> q = Single s \<and> v = Some s)"
  by (cases q) auto

text \<open>
  Past the four checks and a returning \<^verbatim>\<open>createClient\<close>, the handler makes one invite
  call and answers by its result.
\<close>

lemma handler_invites:
  assumes "req_method req = Some (js ''POST'')"
    and "\<not> (secret_falsy (query_secret req)
            \<or> secret_differs (query_secret req) (KAJABI_WEBHOOK_SECRET e))"
    and "VITE_SUPABASE_URL e = Some url" and "url \<noteq> []"
    and "SUPABASE_SERVICE_ROLE_KEY e = Some key" and "key \<noteq> []"
    and "createClient url key = Some supabase"
    and "truthy (email_of (body req))"
  shows "handler e createClient req =
      (let call = \<lparr>invite_email = the (email_of (body req)),
                    data_name = or_else (name_of (body req)) [],
                    redirectTo = or_else (SITE_URL e) (js ''https://lmia-search-ui.vercel.app'')\<rparr>
       in case supabase call of
         Inl err \<Rightarrow>
           if str_includes (message err) (js ''already'') \<or> status err = Some 422 then
             reply 200 (MessageJson (js ''User already exists, skipping invite'')) [] [call]
           else reply 500 (ErrorJson (js ''Failed to invite user''))
                  [js ''Supabase invite error:''] [call]
       | Inr userId \<Rightarrow>
           reply 200 (InvitedJson (js ''User invited successfully'') userId) [] [call])"
  using assms by (simp add: handler_def Let_def)

lemma handler_createClient_throws:
  assumes "req_method req = Some (js ''POST'')"
    and "query_secret req = Single s" and "s \<noteq> []" and "KAJABI_WEBHOOK_SECRET e = Some s"
    and "VITE_SUPABASE_URL e = Some url" and "url \<noteq> []"
    and "SUPABASE_SERVICE_ROLE_KEY e = Some key" and "key \<noteq> []"
    and "createClient url key = None"
  shows "handler e createClient req = throws"
  using assms by (simp add: handler_def)

text \<open>
  C2. A POST request with the correct shared secret and an email in its body, for which
  the provider's invite operation is called and answers with an error whose message
  contains "already" or whose status is 422, is answered with HTTP 200 and the
  informational message "User already exists, skipping invite". The invite operation is
  the one of the client that \<^verbatim>\<open>createClient\<close> returned for the configured URL and key.
\<close>

theorem handler_already_exists:
  assumes "req_method req = Some (js ''POST'')"
    and "query_secret req = Single s" and "s \<noteq> []"
    and "KAJABI_WEBHOOK_SECRET e = Some s"
    and "body req = Some p" and "body_email p = Some addr" and "addr \<noteq> []"
    and "createClient (the (VITE_SUPABASE_URL e)) (the (SUPABASE_SERVICE_ROLE_KEY e))
           = Some supabase"
    and "invited (handler e createClient req) = [call]"
    and "supabase call = Inl err"
    and "str_includes (message err) (js ''already'') \<or> status err = Some 422"
  shows "sent (handler e createClient req) =
           Some \<lparr>status_code = 200,
                 json_body = MessageJson (js ''User already exists, skipping invite'')\<rparr>"
proof -
  have sec: "\<not> (secret_falsy (query_secret req)
            \<or> secret_differs (query_secret req) (KAJABI_WEBHOOK_SECRET e))"
    using assms(2-4) by simp
  have em: "truthy (email_of (body req))"
    using assms(5-7) by (simp add: email_of_def)
  have cfg: "truthy (VITE_SUPABASE_URL e) \<and> truthy (SUPABASE_SERVICE_ROLE_KEY e)"
  proof (rule ccontr)
    assume "\<not> ?thesis"
    then have "invited (handler e createClient req) = []"
      using assms(1) sec by (auto simp: handler_def reply_def)
    with assms(9) show False by simp
  qed
  then obtain url key where u: "VITE_SUPABASE_URL e = Some url" "url \<noteq> []"
    and k: "SUPABASE_SERVICE_ROLE_KEY e = Some key" "key \<noteq> []"
    by (cases "VITE_SUPABASE_URL e"; cases "SUPABASE_SERVICE_ROLE_KEY e") auto
  from assms(8) u k have cc: "createClient url key = Some supabase" by simp
  let ?c = "\<lparr>invite_email = the (email_of (body req)),
             data_name = or_else (name_of (body req)) [],
             redirectTo = or_else (SITE_URL e) (js ''https://lmia-search-ui.vercel.app'')\<rparr>"
  note run = handler_invites [where createClient = createClient and supabase = supabase,
      OF assms(1) sec u k cc em]
  have "invited (handler e createClient req) = [?c]"
    unfolding run by (simp add: reply_def Let_def split: sum.splits)
  with assms(9) have "call = ?c" by simp
  with assms(10) have "supabase ?c = Inl err" by simp
  with assms(11) show ?thesis
    unfolding run by (auto simp: reply_def Let_def)
qed

theorem handler_already_exists_witness:
  "invited (handler
      \<lparr>KAJABI_WEBHOOK_SECRET = Some (js ''s3cret''), VITE_SUPABASE_URL = Some (js ''https://db''),
       SUPABASE_SERVICE_ROLE_KEY = Some (js ''key''), SITE_URL = None\<rparr>
      (\<lambda>url key. if take 8 url = js ''https://'' \<or> take 7 url = js ''http://''
                   then Some (\<lambda>c. Inl \<lparr>message = js ''User already registered'', status = Some 400\<rparr>) else None)
      \<lparr>req_method = Some (js ''POST''), query_secret = Single (js ''s3cret''),
       body = Some \<lparr>body_email = Some (js ''a@b.com''), body_name = None\<rparr>\<rparr>)
    = [\<lparr>invite_email = js ''a@b.com'', data_name = [],
        redirectTo = js ''https://lmia-search-ui.vercel.app''\<rparr>]
   \<and> str_includes (js ''User already registered'') (js ''already'')
   \<and> sent (handler
      \<lparr>KAJABI_WEBHOOK_SECRET = Some (js ''s3cret''), VITE_SUPABASE_URL = Some (js ''https://db''),
       SUPABASE_SERVICE_ROLE_KEY = Some (js ''key''), SITE_URL = None\<rparr>
      (\<lambda>url key. if take 8 url = js ''https://'' \<or> take 7 url = js ''http://''
                   then Some (\<lambda>c. Inl \<lparr>message = js ''User already registered'', status = Some 400\<rparr>) else None)
      \<lparr>req_method = Some (js ''POST''), query_secret = Single (js ''s3cret''),
       body = Some \<lparr>body_email = Some (js ''a@b.com''), body_name = None\<rparr>\<rparr>)
    = Some \<lparr>status_code = 200, json_body = MessageJson (js ''User already exists, skipping invite'')\<rparr>"
proof -
  let ?e = "\<lparr>KAJABI_WEBHOOK_SECRET = Some (js ''s3cret''), VITE_SUPABASE_URL = Some (js ''https://db''),
       SUPABASE_SERVICE_ROLE_KEY = Some (js ''key''), SITE_URL = None\<rparr>"
  let ?err = "\<lparr>message = js ''User already registered'', status = Some 400\<rparr>"
  let ?s = "\<lambda>c::invite_call. (Inl ?err :: auth_error + jsstring)"
  let ?cc = "\<lambda>url key. if take 8 url = js ''https://'' \<or> take 7 url = js ''http://''
                   then Some ?s else None"
  let ?b = "\<lparr>body_email = Some (js ''a@b.com''), body_name = None\<rparr>"
  let ?r = "\<lparr>req_method = Some (js ''POST''), query_secret = Single (js ''s3cret''),
       body = Some ?b\<rparr>"
  let ?c = "\<lparr>invite_email = js ''a@b.com'', data_name = [],
        redirectTo = js ''https://lmia-search-ui.vercel.app''\<rparr>"
  have inc: "str_includes (js ''User already registered'') (js ''already'')"
    by (simp add: js_def)
  have client: "?cc (the (VITE_SUPABASE_URL ?e)) (the (SUPABASE_SERVICE_ROLE_KEY ?e)) = Some ?s"
    by (simp add: js_def)
  have calls: "invited (handler ?e ?cc ?r) = [?c]"
    using inc by (simp add: handler_def reply_def throws_def email_of_def name_of_def or_else_def Let_def js_def)
  have "sent (handler ?e ?cc ?r) = Some \<lparr>status_code = 200, json_body = MessageJson (js ''User already exists, skipping invite'')\<rparr>"
    using inc
    by (intro handler_already_exists [where s = "js ''s3cret''" and p = ?b
          and addr = "js ''a@b.com''" and call = ?c and err = ?err and supabase = ?s]
          calls client)
       (simp_all add: js_def)
  with calls inc show ?thesis by simp
qed




text \<open>
  C8 (as amended). When the configured shared secret is unset or empty, every POST
  request, whatever secret parameter it carries, is answered with 401 and no invite call,
  and no request at all is answered with 500: the answer is 405 or 401. A request passes
  the method and secret checks only if the configured secret is a non-empty string and
  the query parameter is that same string.
\<close>

theorem handler_secret_unset:
  "(req_method r1 = Some (js ''POST'') \<and> \<not> truthy (KAJABI_WEBHOOK_SECRET e1) \<longrightarrow>
      sent (handler e1 c1 r1) = Some \<lparr>status_code = 401, json_body = ErrorJson (js ''Unauthorized'')\<rparr>
      \<and> invited (handler e1 c1 r1) = [])
   \<and> (\<not> truthy (KAJABI_WEBHOOK_SECRET e2) \<longrightarrow>
      map_option status_code (sent (handler e2 c2 r2)) = Some 405
      \<or> map_option status_code (sent (handler e2 c2 r2)) = Some 401)
   \<and> (map_option status_code (sent (handler e3 c3 r3)) \<noteq> Some 405
        \<and> map_option status_code (sent (handler e3 c3 r3)) \<noteq> Some 401 \<longrightarrow>
      (\<exists>s. s \<noteq> [] \<and> KAJABI_WEBHOOK_SECRET e3 = Some s \<and> query_secret r3 = Single s))"
proof -
  have rej: "secret_falsy q \<or> secret_differs q v" if "\<not> truthy v" for q v
    using that by (cases q; cases v) auto
  have a: "sent (handler e c r) = Some \<lparr>status_code = 401, json_body = ErrorJson (js ''Unauthorized'')\<rparr>
      \<and> invited (handler e c r) = []"
    if "req_method r = Some (js ''POST'')" "\<not> truthy (KAJABI_WEBHOOK_SECRET e)" for e c r
    using that rej [of "KAJABI_WEBHOOK_SECRET e" "query_secret r"]
    by (simp add: handler_def reply_def)
  have b: "map_option status_code (sent (handler e c r)) = Some 405
      \<or> map_option status_code (sent (handler e c r)) = Some 401"
    if "\<not> truthy (KAJABI_WEBHOOK_SECRET e)" for e c r
    using that rej [of "KAJABI_WEBHOOK_SECRET e" "query_secret r"]
    by (simp add: handler_def reply_def)
  have c: "\<exists>s. s \<noteq> [] \<and> KAJABI_WEBHOOK_SECRET e = Some s \<and> query_secret r = Single s"
    if "map_option status_code (sent (handler e c r)) \<noteq> Some 405"
      "map_option status_code (sent (handler e c r)) \<noteq> Some 401"
    for e c r
  proof -
    have "\<not> (secret_falsy (query_secret r)
        \<or> secret_differs (query_secret r) (KAJABI_WEBHOOK_SECRET e))"
    proof
      assume "secret_falsy (query_secret r)
        \<or> secret_differs (query_secret r) (KAJABI_WEBHOOK_SECRET e)"
      then have "map_option status_code (sent (handler e c r)) = Some 405
        \<or> map_option status_code (sent (handler e c r)) = Some 401"
        by (simp add: handler_def reply_def)
      with that show False by auto
    qed
    then show ?thesis
      unfolding secret_accepted_iff by blast
  qed
  show ?thesis
    using a b c by blast
qed

theorem handler_secret_unset_witness:
  "sent (handler
      \<lparr>KAJABI_WEBHOOK_SECRET = None, VITE_SUPABASE_URL = Some (js ''https://db''),
       SUPABASE_SERVICE_ROLE_KEY = Some (js ''key''), SITE_URL = None\<rparr>
      (\<lambda>url key. if take 8 url = js ''https://'' \<or> take 7 url = js ''http://''
                   then Some (\<lambda>c. Inr (js ''id1'')) else None)
      \<lparr>req_method = Some (js ''POST''), query_secret = Single (js ''guess''),
       body = Some \<lparr>body_email = Some (js ''a@b.com''), body_name = None\<rparr>\<rparr>)
     = Some \<lparr>status_code = 401, json_body = ErrorJson (js ''Unauthorized'')\<rparr>
   \<and> map_option status_code (sent (handler
      \<lparr>KAJABI_WEBHOOK_SECRET = Some (js ''s3cret''), VITE_SUPABASE_URL = Some (js ''https://db''),
       SUPABASE_SERVICE_ROLE_KEY = Some (js ''key''), SITE_URL = None\<rparr>
      (\<lambda>url key. if take 8 url = js ''https://'' \<or> take 7 url = js ''http://''
                   then Some (\<lambda>c. Inr (js ''id1'')) else None)
      \<lparr>req_method = Some (js ''POST''), query_secret = Single (js ''s3cret''),
       body = Some \<lparr>body_email = Some (js ''a@b.com''), body_name = None\<rparr>\<rparr>)) = Some 200
   \<and> (\<exists>s. s \<noteq> [] \<and> Some (js ''s3cret'') = Some s \<and> Single (js ''s3cret'') = Single s)"
proof -
  let ?u = "\<lparr>KAJABI_WEBHOOK_SECRET = None, VITE_SUPABASE_URL = Some (js ''https://db''),
       SUPABASE_SERVICE_ROLE_KEY = Some (js ''key''), SITE_URL = None\<rparr>"
  let ?k = "\<lparr>KAJABI_WEBHOOK_SECRET = Some (js ''s3cret''), VITE_SUPABASE_URL = Some (js ''https://db''),
       SUPABASE_SERVICE_ROLE_KEY = Some (js ''key''), SITE_URL = None\<rparr>"
  let ?s = "\<lambda>c::invite_call. (Inr (js ''id1'') :: auth_error + jsstring)"
  let ?cc = "\<lambda>url key. if take 8 url = js ''https://'' \<or> take 7 url = js ''http://''
                   then Some ?s else None"
  let ?bad = "\<lparr>req_method = Some (js ''POST''), query_secret = Single (js ''guess''),
       body = Some \<lparr>body_email = Some (js ''a@b.com''), body_name = None\<rparr>\<rparr>"
  let ?good = "\<lparr>req_method = Some (js ''POST''), query_secret = Single (js ''s3cret''),
       body = Some \<lparr>body_email = Some (js ''a@b.com''), body_name = None\<rparr>\<rparr>"
  have ok: "map_option status_code (sent (handler ?k ?cc ?good)) = Some 200"
    by (simp add: handler_def reply_def throws_def email_of_def name_of_def or_else_def Let_def js_def)
  note t = handler_secret_unset [where ?r1.0 = ?bad and ?e1.0 = ?u and ?c1.0 = ?cc
      and ?r2.0 = ?bad and ?e2.0 = ?u and ?c2.0 = ?cc
      and ?r3.0 = ?good and ?e3.0 = ?k and ?c3.0 = ?cc]
  from t have "sent (handler ?u ?cc ?bad) = Some \<lparr>status_code = 401, json_body = ErrorJson (js ''Unauthorized'')\<rparr>"
    by simp
  moreover from t ok
  have "\<exists>s. s \<noteq> [] \<and> Some (js ''s3cret'') = Some s \<and> Single (js ''s3cret'') = Single s"
    by simp
  ultimately show ?thesis using ok by blast
qed

text \<open>
  C8 as stated fails for requests that are not POST: the method check comes first, so a
  GET on a server with no configured secret is answered with 405, not 401.
\<close>

theorem handler_secret_unset_counterexample:
  "sent (handler
      \<lparr>KAJABI_WEBHOOK_SECRET = None, VITE_SUPABASE_URL = Some (js ''https://db''),
       SUPABASE_SERVICE_ROLE_KEY = Some (js ''key''), SITE_URL = None\<rparr>
      (\<lambda>url key. if take 8 url = js ''https://'' \<or> take 7 url = js ''http://''
                   then Some (\<lambda>c. Inr (js ''id1'')) else None)
      \<lparr>req_method = Some (js ''GET''), query_secret = Single (js ''guess''),
       body = None\<rparr>)
     = Some \<lparr>status_code = 405, json_body = ErrorJson (js ''Method not allowed'')\<rparr>"
  by (simp add: handler_def reply_def js_def)

section \<open>Pagination (both explorer components)\<close>

text \<open>
  The page size \<open>rowsPerPage\<close> and the page number \<open>currentPage\<close> are integers. The
  page size is only ever set from \<^verbatim>\<open>parseInt(value) || 100\<close> on the options 50, 100, 250
  and 500, so the properties below assume it positive (a division by zero is
  \<open>Infinity\<close> or \<open>NaN\<close> in JavaScript and \<open>0\<close> in HOL).
\<close>

text \<open>
  \<^verbatim>\<open>Array.prototype.slice(start, end)\<close>: a negative index counts from the end, and both
  indices are clamped to the array.
\<close>

definition slice :: "'a list \<Rightarrow> int \<Rightarrow> int \<Rightarrow> 'a list" where
  "slice xs start fin =
     (let len = int (length xs);
          k = (if start < 0 then max (len + start) 0 else min start len);
          final = (if fin < 0 then max (len + fin) 0 else min fin len)
      in take (nat (final - k)) (drop (nat k) xs))"

text \<open>
  \<^verbatim>\<open>part_004\<close>: \<^verbatim>\<open>Math.max(1, Math.ceil(filtered.length / rowsPerPage))\<close>.
\<close>

definition totalPages :: "'a list \<Rightarrow> int \<Rightarrow> int" where
  "totalPages filtered rowsPerPage =
     max 1 \<lceil>real (length filtered) / real_of_int rowsPerPage\<rceil>"

text \<open>
  \<^verbatim>\<open>src/components/LMIAExplorer.tsx\<close>: \<^verbatim>\<open>Math.ceil(filtered.length / rowsPerPage)\<close>,
  with no lower bound.
\<close>

definition totalPages_tsx :: "'a list \<Rightarrow> int \<Rightarrow> int" where
  "totalPages_tsx filtered rowsPerPage =
     \<lceil>real (length filtered) / real_of_int rowsPerPage\<rceil>"

definition paginatedData :: "'a list \<Rightarrow> int \<Rightarrow> int \<Rightarrow> 'a list" where
  "paginatedData filtered rowsPerPage currentPage =
     (let startIndex = (currentPage - 1) * rowsPerPage;
          endIndex = startIndex + rowsPerPage
      in slice filtered startIndex endIndex)"

section \<open>Properties of pagination\<close>

lemma slice_take_drop:
  assumes "0 \<le> a" "a \<le> b"
  shows "slice xs a b = take (nat (b - a)) (drop (nat a) xs)"
proof (cases "a \<le> int (length xs)")
  case True
  show ?thesis
  proof (cases "b \<le> int (length xs)")
    case True
    with assms \<open>a \<le> int (length xs)\<close> show ?thesis
      by (simp add: slice_def Let_def min_def)
  next
    case False
    then have "length (drop (nat a) xs) \<le> nat (b - a)" "length (drop (nat a) xs) \<le> nat (int (length xs) - a)"
      using assms True by auto
    with assms True False show ?thesis
      by (simp add: slice_def Let_def min_def)
  qed
next
  case False
  with assms show ?thesis
    by (simp add: slice_def Let_def min_def)
qed

lemma page_take_drop:
  assumes "0 < n"
  shows "paginatedData xs n (int m + 1) = take (nat n) (drop (m * nat n) xs)"
proof -
  have "nat (int m * n) = m * nat n"
    using assms by (simp add: nat_mult_distrib)
  moreover have "0 \<le> int m * n" "int m * n \<le> int m * n + n"
    using assms by simp_all
  ultimately show ?thesis
    by (simp add: paginatedData_def Let_def slice_take_drop)
qed

lemma pages_concat:
  assumes "0 < n"
  shows "concat (map (paginatedData xs n) [1..int m]) = take (m * nat n) xs"
proof (induction m)
  case 0
  show ?case by simp
next
  case (Suc m)
  have "[1..int (Suc m)] = [1..int m] @ [int m + 1]"
    by (simp add: upto_rec2)
  then have "concat (map (paginatedData xs n) [1..int (Suc m)]) =
      take (m * nat n) xs @ take (nat n) (drop (m * nat n) xs)"
    using Suc page_take_drop [OF assms] by simp
  also have "\<dots> = take (m * nat n + nat n) xs"
    by (simp add: take_add)
  finally show ?case by (simp add: add.commute)
qed

lemma ceil_pages_cover:
  assumes "0 < n"
  shows "int (length xs) \<le> \<lceil>real (length xs) / real_of_int n\<rceil> * n"
proof -
  let ?q = "real (length xs) / real_of_int n"
  have "real (length xs) = ?q * real_of_int n"
    using assms by simp
  also have "\<dots> \<le> real_of_int \<lceil>?q\<rceil> * real_of_int n"
    by (rule mult_right_mono) (use assms in simp_all)
  finally have "real_of_int (int (length xs)) \<le> real_of_int (\<lceil>?q\<rceil> * n)"
    by simp
  then show ?thesis by (simp only: of_int_le_iff)
qed

lemma ceil_pages_nonneg:
  assumes "0 < n"
  shows "0 \<le> \<lceil>real (length xs) / real_of_int n\<rceil>"
proof -
  have "0 \<le> real (length xs) / real_of_int n"
    using assms by simp
  then show ?thesis
    by (simp add: zero_le_ceiling)
qed

lemma pages_upto:
  assumes "0 < n" "0 \<le> k" "int (length xs) \<le> k * n"
  shows "concat (map (paginatedData xs n) [1..k]) = xs"
proof -
  from assms have "int (length xs) \<le> int (nat k * nat n)"
    by (simp add: nat_mult_distrib)
  then have "length xs \<le> nat k * nat n" by linarith
  moreover have "concat (map (paginatedData xs n) [1..int (nat k)]) = take (nat k * nat n) xs"
    by (rule pages_concat [OF assms(1)])
  ultimately show ?thesis using assms(2) by simp
qed

text \<open>
  C4. For every filtered list and every positive page size, the slices of the pages
  1 to \<open>totalPages\<close>, concatenated in order, are exactly the filtered list; this holds
  for the page count of either component.
\<close>

theorem pagination_partitions:
  "0 < n \<Longrightarrow>
     concat (map (paginatedData xs n) [1..totalPages xs n]) = xs
   \<and> concat (map (paginatedData xs n) [1..totalPages_tsx xs n]) = xs"
proof
  assume n: "0 < n"
  note c = ceil_pages_nonneg [OF n, of xs]
  have "int (length xs) \<le> totalPages xs n * n"
  proof -
    have "\<lceil>real (length xs) / real_of_int n\<rceil> * n \<le> totalPages xs n * n"
      using n by (simp add: totalPages_def mult_right_mono)
    with ceil_pages_cover [OF n, of xs] show ?thesis by linarith
  qed
  then show "concat (map (paginatedData xs n) [1..totalPages xs n]) = xs"
    using n by (intro pages_upto) (simp_all add: totalPages_def)
  show "concat (map (paginatedData xs n) [1..totalPages_tsx xs n]) = xs"
    using n c ceil_pages_cover [OF n, of xs]
    by (intro pages_upto) (simp_all add: totalPages_tsx_def)
qed

theorem pagination_partitions_witness:
  "concat (map (paginatedData [10, 20, 30, 40, 50 :: nat] 2)
      [1..totalPages [10, 20, 30, 40, 50 :: nat] 2]) = [10, 20, 30, 40, 50]
   \<and> totalPages [10, 20, 30, 40, 50 :: nat] 2 = 3
   \<and> paginatedData [10, 20, 30, 40, 50 :: nat] 2 3 = [50]"
proof -
  have "totalPages [10, 20, 30, 40, 50 :: nat] 2 = 3"
    by (simp add: totalPages_def)
  moreover have "paginatedData [10, 20, 30, 40, 50 :: nat] 2 3 = [50]"
    by (simp add: paginatedData_def slice_def)
  ultimately show ?thesis
    using pagination_partitions [of 2 "[10, 20, 30, 40, 50 :: nat]"] by simp
qed

text \<open>
  The page count of \<^verbatim>\<open>part_004\<close> is the ceiling of the quotient, and at least 1.
\<close>

lemma totalPages_ceiling_min_one:
  assumes "0 < n"
  shows "1 \<le> totalPages xs n"
    and "totalPages [] n = 1"
    and "xs \<noteq> [] \<Longrightarrow> totalPages xs n = \<lceil>real (length xs) / real_of_int n\<rceil>"
    and "int (length xs) \<le> totalPages xs n * n"
proof -
  show "1 \<le> totalPages xs n" by (simp add: totalPages_def)
  show "totalPages [] n = 1" by (simp add: totalPages_def)
  have le: "\<lceil>real (length xs) / real_of_int n\<rceil> \<le> totalPages xs n"
    by (simp add: totalPages_def)
  then have "\<lceil>real (length xs) / real_of_int n\<rceil> * n \<le> totalPages xs n * n"
    using assms by (simp add: mult_right_mono)
  with ceil_pages_cover [OF assms, of xs] show "int (length xs) \<le> totalPages xs n * n"
    by linarith
  show "totalPages xs n = \<lceil>real (length xs) / real_of_int n\<rceil>" if "xs \<noteq> []"
  proof -
    have "0 < real (length xs) / real_of_int n"
      using assms that by simp
    then have "1 \<le> \<lceil>real (length xs) / real_of_int n\<rceil>"
      by (simp add: one_le_ceiling)
    then show ?thesis by (simp add: totalPages_def)
  qed
qed

text \<open>
  C5. The page count is the ceiling of filteredCount / pageSize and at least 1; on an
  empty filtered list it is 1. The component \<^verbatim>\<open>src/components/LMIAExplorer.tsx\<close>
  computes 0 there: its page count has no lower bound.
\<close>

theorem totalPages_tsx_empty:
  "totalPages_tsx [] 100 = 0"
  by (simp add: totalPages_tsx_def)

section \<open>String operations of the explorer and the local auth provider\<close>

text \<open>
  \<^verbatim>\<open>String.prototype.trim\<close> and the regular expression class \<^verbatim>\<open>\s\<close> share one set of
  code units: TAB, LF, VT, FF, CR, SPACE, U+00A0, U+1680, U+2000 to U+200A, U+2028,
  U+2029, U+202F, U+205F, U+3000 and U+FEFF.
\<close>

definition isWhiteSpace :: "nat \<Rightarrow> bool" where
  "isWhiteSpace c = (c \<in> {9, 10, 11, 12, 13, 32, 160, 5760, 8232, 8233, 8239, 8287, 12288, 65279}
                     \<or> (8192 \<le> c \<and> c \<le> 8202))"

definition trim :: "jsstring \<Rightarrow> jsstring" where
  "trim s = rev (dropWhile isWhiteSpace (rev (dropWhile isWhiteSpace s)))"

text \<open>
  Case mapping, code unit by code unit. The mapping is the ECMAScript one on U+0000 to
  U+00FF (Basic Latin and Latin-1) and on the white space above; a cased letter beyond
  U+00FF is left as it is, which is where the model stops. Upper-casing can lengthen a
  string: U+00DF becomes "SS"; U+00B5 and U+00FF leave Latin-1.
\<close>

definition toLowerCase_unit :: "nat \<Rightarrow> nat" where
  "toLowerCase_unit c =
     (if (65 \<le> c \<and> c \<le> 90) \<or> (192 \<le> c \<and> c \<le> 222 \<and> c \<noteq> 215) then c + 32 else c)"

definition toLowerCase :: "jsstring \<Rightarrow> jsstring" where
  "toLowerCase s = map toLowerCase_unit s"

definition toUpperCase_unit :: "nat \<Rightarrow> jsstring" where
  "toUpperCase_unit c =
     (if (97 \<le> c \<and> c \<le> 122) \<or> (224 \<le> c \<and> c \<le> 254 \<and> c \<noteq> 247) then [c - 32]
      else if c = 223 then [83, 83]
      else if c = 181 then [924]
      else if c = 255 then [376]
      else [c])"

definition toUpperCase :: "jsstring \<Rightarrow> jsstring" where
  "toUpperCase s = concat (map toUpperCase_unit s)"

text \<open>
  \<^verbatim>\<open>parseInt(string)\<close> with no radix: leading white space is skipped, a sign is read, a
  \<^verbatim>\<open>0x\<close> prefix selects radix 16, and the longest run of digits of the radix is the
  number; \<open>None\<close> is \<open>NaN\<close>. The value is the exact integer (JavaScript rounds it to a
  double beyond 2^53).
\<close>

definition isDecimalDigit :: "nat \<Rightarrow> bool" where
  "isDecimalDigit c = (48 \<le> c \<and> c \<le> 57)"

definition radixDigit :: "nat \<Rightarrow> nat \<Rightarrow> nat option" where
  "radixDigit R c =
     (let v = (if 48 \<le> c \<and> c \<le> 57 then Some (c - 48)
               else if 97 \<le> c \<and> c \<le> 122 then Some (c - 87)
               else if 65 \<le> c \<and> c \<le> 90 then Some (c - 55)
               else None)
      in case v of None \<Rightarrow> None | Some d \<Rightarrow> if d < R then Some d else None)"

definition parseInt :: "jsstring \<Rightarrow> int option" where
  "parseInt inputString =
     (let S = dropWhile isWhiteSpace inputString;
          sign = (if S \<noteq> [] \<and> hd S = 45 then - 1 else 1 :: int);
          S1 = (if S \<noteq> [] \<and> (hd S = 43 \<or> hd S = 45) then tl S else S);
          hexPrefix = (take 2 S1 = [48, 120] \<or> take 2 S1 = [48, 88]);
          R = (if hexPrefix then 16 else 10);
          S2 = (if hexPrefix then drop 2 S1 else S1);
          Z = takeWhile (\<lambda>c. radixDigit R c \<noteq> None) S2
      in if Z = [] then None
         else Some (sign * int (foldl (\<lambda>a c. a * R + the (radixDigit R c)) 0 Z)))"

section \<open>City names: validity and normalization (\<^verbatim>\<open>part_004\<close>)\<close>

text \<open>
  The regular expressions of \<open>isValidCityName\<close> as data. \<open>ends ic r s i\<close> lists the
  positions at which a match of \<open>r\<close> that starts at position \<open>i\<close> of \<open>s\<close> can end;
  \<^verbatim>\<open>r.test(s)\<close> holds when some start position has a match. \<open>ic\<close> is the flag \<^verbatim>\<open>i\<close>:
  without the flag \<^verbatim>\<open>u\<close> a literal letter then matches its two ASCII cases only, and
  \<^verbatim>\<open>\b\<close> and \<^verbatim>\<open>\w\<close> stay ASCII. The character classes are \<^verbatim>\<open>\d\<close>, \<^verbatim>\<open>\s\<close>, \<^verbatim>\<open>[A-Z]\<close> and
  the class of the last test, with the accented letters of \<^verbatim>\<open>part_004\<close> (U+00E9, U+00E0,
  U+00E8, U+00F9, U+00E2, U+00EA, U+00EE, U+00F4, U+00FB, U+00E7 and their capitals).
\<close>

datatype cclass = Digit | Space | UpperAZ | CityChar

fun in_class :: "cclass \<Rightarrow> nat \<Rightarrow> bool" where
  "in_class Digit c = isDecimalDigit c"
| "in_class Space c = isWhiteSpace c"
| "in_class UpperAZ c = (65 \<le> c \<and> c \<le> 90)"
| "in_class CityChar c =
     ((97 \<le> c \<and> c \<le> 122) \<or> (65 \<le> c \<and> c \<le> 90) \<or> isWhiteSpace c \<or> c = 45 \<or> c = 39
      \<or> c \<in> {233, 224, 232, 249, 226, 234, 238, 244, 251, 231,
               201, 192, 200, 217, 194, 202, 206, 212, 219, 199})"

datatype rx =
    Lit jsstring
  | Cls cclass
  | Opt rx
  | Star cclass
  | Plus cclass
  | Alt "rx list"
  | Seq "rx list"
  | WordB
  | Bol
  | Eol

definition canonicalize :: "bool \<Rightarrow> nat \<Rightarrow> nat" where
  "canonicalize ignoreCase c = (if ignoreCase \<and> 97 \<le> c \<and> c \<le> 122 then c - 32 else c)"

definition is_word_char :: "nat \<Rightarrow> bool" where
  "is_word_char c = ((97 \<le> c \<and> c \<le> 122) \<or> (65 \<le> c \<and> c \<le> 90) \<or> (48 \<le> c \<and> c \<le> 57) \<or> c = 95)"

definition word_at :: "jsstring \<Rightarrow> nat \<Rightarrow> bool" where
  "word_at s i = (i < length s \<and> is_word_char (s ! i))"

definition word_before :: "jsstring \<Rightarrow> nat \<Rightarrow> bool" where
  "word_before s i = (0 < i \<and> word_at s (i - 1))"

fun ends :: "bool \<Rightarrow> rx \<Rightarrow> jsstring \<Rightarrow> nat \<Rightarrow> nat list" where
  "ends ic (Lit t) s i =
     (if map (canonicalize ic) (take (length t) (drop i s)) = map (canonicalize ic) t
      then [i + length t] else [])"
| "ends ic (Cls k) s i = (if i < length s \<and> in_class k (s ! i) then [i + 1] else [])"
| "ends ic (Opt r) s i = ends ic r s i @ [i]"
| "ends ic (Star k) s i =
     map (\<lambda>j. i + j) (rev [0..<Suc (length (takeWhile (in_class k) (drop i s)))])"
| "ends ic (Plus k) s i =
     map (\<lambda>j. i + j) (rev [1..<Suc (length (takeWhile (in_class k) (drop i s)))])"
| "ends ic (Alt rs) s i = concat (map (\<lambda>r. ends ic r s i) rs)"
| "ends ic (Seq []) s i = [i]"
| "ends ic (Seq (r # rs)) s i = concat (map (\<lambda>j. ends ic (Seq rs) s j) (ends ic r s i))"
| "ends ic WordB s i = (if word_before s i \<noteq> word_at s i then [i] else [])"
| "ends ic Bol s i = (if i = 0 then [i] else [])"
| "ends ic Eol s i = (if i = length s then [i] else [])"

definition test :: "bool \<Rightarrow> rx \<Rightarrow> jsstring \<Rightarrow> bool" where
  "test ic r s = list_ex (\<lambda>i. ends ic r s i \<noteq> []) [0..<Suc (length s)]"

text \<open>The six banned patterns, in the order of the source; the first three carry the flag \<^verbatim>\<open>i\<close>.\<close>

definition bannedPatterns :: "(bool \<times> rx) list" where
  "bannedPatterns =
     [(True, Seq [WordB,
         Alt (map (\<lambda>w. Lit (js w))
           [''street'', ''st'', ''avenue'', ''ave'', ''road'', ''rd'', ''drive'', ''dr'',
            ''boulevard'', ''blvd'', ''lane'', ''ln'', ''court'', ''ct'', ''way'', ''wy'',
            ''terrace'', ''ter'', ''place'', ''pl'']),
         WordB]),
      (True, Seq [WordB,
         Alt [Lit (js ''unit''), Lit (js ''suite''), Lit (js ''apt''), Lit (js ''apartment''),
              Lit (js ''floor''), Lit (js ''fl''), Lit (js ''building''), Lit (js ''bldg''),
              Lit (js ''box''),
              Seq [Lit (js ''p''), Opt (Lit (js ''.'')), Lit (js ''o''), Opt (Lit (js ''.'')),
                   Star Space, Lit (js ''box'')],
              Lit (js ''rr''),
              Seq [Lit (js ''r''), Opt (Lit (js ''.'')), Lit (js ''r''), Opt (Lit (js ''.'')),
                   Star Space, Plus Digit]],
         WordB]),
      (True, Seq [WordB,
         Alt (map (\<lambda>w. Lit (js w))
           [''north'', ''south'', ''east'', ''west'', ''n'', ''s'', ''e'', ''w'',
            ''ne'', ''nw'', ''se'', ''sw'']),
         Plus Space,
         Alt [Lit (js ''of''), Lit (js ''at''), Lit (js ''and'')],
         WordB]),
      (False, Seq [Bol, Cls UpperAZ, Eol]),
      (False, Seq [Bol, Cls UpperAZ, Plus Space, Cls UpperAZ, Eol]),
      (False, Seq [Bol, Cls UpperAZ, Opt (Lit (js ''.'')), Star Space, Cls UpperAZ,
                   Opt (Lit (js ''.'')), Eol])]"

definition isValidCityName :: "jsstring \<Rightarrow> bool" where
  "isValidCityName city =
     (if city = [] then False
      else let c = trim city in
        if length c < 3 \<or> length c > 40 then False
        else if test False (Cls Digit) c then False
        else if list_ex (\<lambda>(ic, p). test ic p c) bannedPatterns then False
        else if \<not> test False (Seq [Bol, Plus CityChar, Eol]) c then False
        else if str_includes c (js ''Unknown'') \<or> str_includes c (js ''Not Specified'')
                \<or> str_includes c (js ''N/A'') then False
        else True)"

text \<open>
  The correction table of \<^verbatim>\<open>part_004\<close>. It is an object literal, so a lookup also finds
  the members that every object inherits from \<^verbatim>\<open>Object.prototype\<close>: functions and objects,
  all truthy and none a string.
\<close>

definition CITY_CORRECTIONS :: "(jsstring \<times> jsstring) list" where
  "CITY_CORRECTIONS =
     [(js ''Abbottsford'', js ''Abbotsford''),
      (js ''Abortsford'', js ''Abbotsford''),
      (js ''Vancouve'', js ''Vancouver''),
      (js ''Toront'', js ''Toronto''),
      (js ''Montreal'', js ''Montr'' @ [233] @ js ''al''),
      (js ''Quebec'', js ''Qu'' @ [233] @ js ''bec'')]"

definition OBJECT_PROTOTYPE_KEYS :: "jsstring list" where
  "OBJECT_PROTOTYPE_KEYS =
     map js [''constructor'', ''hasOwnProperty'', ''isPrototypeOf'', ''propertyIsEnumerable'',
             ''toLocaleString'', ''toString'', ''valueOf'', ''__proto__'',
             ''__defineGetter__'', ''__defineSetter__'', ''__lookupGetter__'',
             ''__lookupSetter__'']"

datatype property = Undefined | OwnString jsstring | Inherited

definition get_property :: "(jsstring \<times> jsstring) list \<Rightarrow> jsstring \<Rightarrow> property" where
  "get_property obj key =
     (case map_of obj key of
        Some v \<Rightarrow> OwnString v
      | None \<Rightarrow> if key \<in> set OBJECT_PROTOTYPE_KEYS then Inherited else Undefined)"

datatype js_error = TypeError

text \<open>
  \<^verbatim>\<open>s.split(sep)\<close> and \<^verbatim>\<open>ws.join(sep)\<close> for a separator of one code unit (32 is the space,
  39 the apostrophe), and \<^verbatim>\<open>part.charAt(0).toUpperCase() + part.slice(1)\<close>.
\<close>

fun split_on :: "nat \<Rightarrow> jsstring \<Rightarrow> jsstring list" where
  "split_on sep [] = [[]]"
| "split_on sep (c # cs) =
     (if c = sep then [] # split_on sep cs
      else case split_on sep cs of
             [] \<Rightarrow> [[c]]
           | w # ws \<Rightarrow> (c # w) # ws)"

fun join_with :: "nat \<Rightarrow> jsstring list \<Rightarrow> jsstring" where
  "join_with sep [] = []"
| "join_with sep [w] = w"
| "join_with sep (w # v # ws) = w @ sep # join_with sep (v # ws)"

definition capitalize :: "jsstring \<Rightarrow> jsstring" where
  "capitalize part = toUpperCase (take 1 part) @ drop 1 part"

text \<open>The arrow function mapped over the words.\<close>

definition title_word :: "jsstring \<Rightarrow> jsstring" where
  "title_word word =
     (if word = js ''st'' then js ''St''
      else if word = js ''ste'' then js ''Ste''
      else if word = js ''mt'' then js ''Mt''
      else if word = js ''ft'' then js ''Ft''
      else let parts = split_on 39 word in
        if length parts > 1 then
          join_with 39 (map (\<lambda>(i, part). if i = 0 then capitalize part else part)
                          (enumerate 0 parts))
        else capitalize word)"

text \<open>
  \<open>normalizeCityName\<close>. When the trimmed name is an inherited member of the table, \<open>c\<close>
  becomes that member and \<^verbatim>\<open>c.toLowerCase()\<close> throws a \<open>TypeError\<close>.
\<close>

definition normalizeCityName :: "jsstring \<Rightarrow> js_error + jsstring" where
  "normalizeCityName city =
     (let c = trim city in
      case (case get_property CITY_CORRECTIONS c of
              Undefined \<Rightarrow> Inr c
            | OwnString v \<Rightarrow> Inr (if v \<noteq> [] then v else c)
            | Inherited \<Rightarrow> Inl TypeError) of
        Inl err \<Rightarrow> Inl err
      | Inr c \<Rightarrow> Inr (join_with 32 (map title_word (split_on 32 (toLowerCase c)))))"

section \<open>Properties of city-name normalization\<close>

subsection \<open>split and join\<close>

lemma capitalize_simps:
  "capitalize [] = []"
  "capitalize (c # cs) = toUpperCase_unit c @ cs"
  by (simp_all add: capitalize_def toUpperCase_def)

lemma split_on_nonempty: "split_on sep s \<noteq> []"
  by (induction s) (auto split: list.splits)

lemma join_split: "join_with sep (split_on sep s) = s"
proof (induction s)
  case Nil
  show ?case by simp
next
  case (Cons c cs)
  obtain w ws where sp: "split_on sep cs = w # ws"
    using split_on_nonempty [of sep cs] by (cases "split_on sep cs") auto
  with Cons show ?case
    by (cases ws) auto
qed

lemma join_append_head: "join_with sep ((a @ w) # ws) = a @ join_with sep (w # ws)"
  by (cases ws) auto

lemma split_on_units: "w \<in> set (split_on sep s) \<Longrightarrow> set w \<subseteq> set s"
proof (induction s arbitrary: w)
  case Nil
  then show ?case by simp
next
  case (Cons c cs)
  obtain v vs where sp: "split_on sep cs = v # vs"
    using split_on_nonempty [of sep cs] by (cases "split_on sep cs") auto
  have v: "set v \<subseteq> set cs" and vs: "\<And>u. u \<in> set vs \<Longrightarrow> set u \<subseteq> set cs"
    using Cons.IH sp by auto
  from Cons.prems sp show ?case
    using v vs by (auto split: if_splits)
qed

lemma enumerate_keep_rest:
  "map (\<lambda>(i, part). if i = 0 then f part else part) (enumerate (Suc k) ps) = ps"
  by (induction ps arbitrary: k) auto

lemma capitalize_first_part:
  "map (\<lambda>(i, part). if i = 0 then f part else part) (enumerate 0 (p # ps)) = f p # ps"
  by (simp add: enumerate_keep_rest)

lemma toUpperCase_unit_apostrophe: "toUpperCase_unit 39 = [39]"
  by (simp add: toUpperCase_unit_def)

lemma join_capitalized_parts:
  "join_with 39 (map (\<lambda>(i, part). if i = 0 then capitalize part else part)
      (enumerate 0 (split_on 39 word))) = capitalize word"
proof (cases word)
  case Nil
  then show ?thesis by (simp add: capitalize_simps)
next
  case (Cons c cs)
  obtain v vs where sp: "split_on 39 cs = v # vs"
    using split_on_nonempty [of 39 cs] by (cases "split_on 39 cs") auto
  have j: "join_with 39 (v # vs) = cs"
    using join_split [of 39 cs] sp by simp
  show ?thesis
  proof (cases "c = 39")
    case True
    then have "split_on 39 word = [] # v # vs"
      using Cons sp by simp
    then have "map (\<lambda>(i, part). if i = 0 then capitalize part else part)
        (enumerate 0 (split_on 39 word)) = capitalize [] # v # vs"
      by (simp only: capitalize_first_part)
    then have "join_with 39 (map (\<lambda>(i, part). if i = 0 then capitalize part else part)
        (enumerate 0 (split_on 39 word))) = 39 # cs"
      using j by (simp add: capitalize_simps)
    then show ?thesis
      using True Cons by (simp add: capitalize_simps toUpperCase_unit_apostrophe)
  next
    case False
    then have "split_on 39 word = (c # v) # vs"
      using Cons sp by simp
    then have "map (\<lambda>(i, part). if i = 0 then capitalize part else part)
        (enumerate 0 (split_on 39 word)) = capitalize (c # v) # vs"
      by (simp only: capitalize_first_part)
    then have "join_with 39 (map (\<lambda>(i, part). if i = 0 then capitalize part else part)
        (enumerate 0 (split_on 39 word))) = toUpperCase_unit c @ join_with 39 (v # vs)"
      by (simp add: capitalize_simps join_append_head)
    then show ?thesis
      using Cons j by (simp add: capitalize_simps)
  qed
qed

lemma title_word_capitalize: "title_word word = capitalize word"
proof -
  have special: "capitalize (js ''st'') = js ''St''" "capitalize (js ''ste'') = js ''Ste''"
    "capitalize (js ''mt'') = js ''Mt''" "capitalize (js ''ft'') = js ''Ft''"
    by (simp_all add: capitalize_def toUpperCase_def toUpperCase_unit_def js_def)
  show ?thesis
  proof (cases "length (split_on 39 word) > 1")
    case True
    then show ?thesis
      using special join_capitalized_parts [of word]
      by (auto simp: title_word_def Let_def)
  next
    case False
    then show ?thesis
      using special by (auto simp: title_word_def Let_def)
  qed
qed

subsection \<open>Case mapping on the alphabet of city names\<close>

lemma lower_unit_idem: "toLowerCase_unit (toLowerCase_unit x) = toLowerCase_unit x"
  by (auto simp: toLowerCase_unit_def)

lemma lower_unit_space: "isWhiteSpace (toLowerCase_unit x) = isWhiteSpace x"
  by (auto simp: toLowerCase_unit_def isWhiteSpace_def)

lemma white_space_units:
  assumes "isWhiteSpace y"
  shows "y < 65 \<or> y = 160 \<or> 5760 \<le> y"
  using assms by (auto simp: isWhiteSpace_def)

lemma city_unit_cases:
  assumes "in_class CityChar y"
  shows "(97 \<le> y \<and> y \<le> 122) \<or> (65 \<le> y \<and> y \<le> 90) \<or> isWhiteSpace y \<or> y = 45 \<or> y = 39
         \<or> (192 \<le> y \<and> y \<le> 251 \<and> y \<noteq> 215 \<and> y \<noteq> 223 \<and> y \<noteq> 247)"
  using assms by (elim in_class.elims) auto

lemma city_unit_lower:
  assumes "in_class CityChar y" "\<not> isWhiteSpace y"
  shows "(97 \<le> toLowerCase_unit y \<and> toLowerCase_unit y \<le> 122)
         \<or> toLowerCase_unit y = 45 \<or> toLowerCase_unit y = 39
         \<or> (224 \<le> toLowerCase_unit y \<and> toLowerCase_unit y \<le> 254 \<and> toLowerCase_unit y \<noteq> 247)"
proof -
  from city_unit_cases [OF assms(1)] assms(2)
  consider "97 \<le> y \<and> y \<le> 122" | "65 \<le> y \<and> y \<le> 90" | "y = 45 \<or> y = 39"
    | "192 \<le> y \<and> y \<le> 222 \<and> y \<noteq> 215" | "224 \<le> y \<and> y \<le> 251 \<and> y \<noteq> 247"
    by linarith
  then show ?thesis
    by cases (auto simp: toLowerCase_unit_def)
qed

lemma city_unit_special:
  assumes "in_class CityChar y"
  shows "toLowerCase_unit y \<noteq> 181 \<and> toLowerCase_unit y \<noteq> 223 \<and> toLowerCase_unit y \<noteq> 255"
proof (cases "isWhiteSpace y")
  case True
  then have "toLowerCase_unit y = y"
    using white_space_units [OF True] by (auto simp: toLowerCase_unit_def)
  with white_space_units [OF True] show ?thesis by auto
next
  case False
  with city_unit_lower [OF assms] show ?thesis by linarith
qed

lemma lower_upper_unit:
  assumes "toLowerCase_unit x = x" "x \<noteq> 181" "x \<noteq> 223" "x \<noteq> 255"
  shows "map toLowerCase_unit (toUpperCase_unit x) = [x]"
proof (cases "(97 \<le> x \<and> x \<le> 122) \<or> (224 \<le> x \<and> x \<le> 254 \<and> x \<noteq> 247)")
  case True
  then have "toUpperCase_unit x = [x - 32]"
    by (simp add: toUpperCase_unit_def)
  moreover from True have "toLowerCase_unit (x - 32) = x"
    by (auto simp: toLowerCase_unit_def)
  ultimately show ?thesis by simp
next
  case False
  then have "toUpperCase_unit x = [x]"
    using assms(2-4) by (auto simp: toUpperCase_unit_def)
  with assms(1) show ?thesis by simp
qed

lemma city_unit_upper_head:
  assumes "in_class CityChar y" "\<not> isWhiteSpace y" "u \<in> set (toUpperCase_unit (toLowerCase_unit y))"
  shows "\<not> (97 \<le> u \<and> u \<le> 122) \<and> u \<noteq> 95"
proof -
  let ?x = "toLowerCase_unit y"
  from city_unit_lower [OF assms(1,2)]
  consider (shift) "(97 \<le> ?x \<and> ?x \<le> 122) \<or> (224 \<le> ?x \<and> ?x \<le> 254 \<and> ?x \<noteq> 247)"
    | (other) "?x = 45 \<or> ?x = 39"
    by blast
  then show ?thesis
  proof cases
    case shift
    then have "toUpperCase_unit ?x = [?x - 32]" by (simp add: toUpperCase_unit_def)
    with assms(3) have "u = ?x - 32" by simp
    with shift show ?thesis by linarith
  next
    case other
    then have "toUpperCase_unit ?x = [?x]" by (auto simp: toUpperCase_unit_def)
    with assms(3) other show ?thesis by auto
  qed
qed

subsection \<open>Lower-casing a title-cased string\<close>

lemma lower_join: "toLowerCase (join_with 32 ws) = join_with 32 (map toLowerCase ws)"
proof (induction ws)
  case Nil
  show ?case by (simp add: toLowerCase_def)
next
  case (Cons w ws)
  then show ?case
    by (cases ws) (simp_all add: toLowerCase_def toLowerCase_unit_def)
qed

lemma lower_capitalize:
  assumes "\<forall>x \<in> set w. toLowerCase_unit x = x \<and> x \<noteq> 181 \<and> x \<noteq> 223 \<and> x \<noteq> 255"
  shows "toLowerCase (capitalize w) = w"
proof (cases w)
  case Nil
  then show ?thesis by (simp add: capitalize_simps toLowerCase_def)
next
  case (Cons x xs)
  with assms have "map toLowerCase_unit (toUpperCase_unit x) = [x]"
    by (intro lower_upper_unit) simp_all
  moreover from assms Cons have "map toLowerCase_unit xs = xs"
    by (simp add: map_idI)
  ultimately show ?thesis
    using Cons by (simp add: capitalize_simps toLowerCase_def)
qed

lemma lower_title:
  assumes "\<forall>x \<in> set l. toLowerCase_unit x = x \<and> x \<noteq> 181 \<and> x \<noteq> 223 \<and> x \<noteq> 255"
  shows "toLowerCase (join_with 32 (map title_word (split_on 32 l))) = l"
proof -
  have "toLowerCase (capitalize w) = w" if "w \<in> set (split_on 32 l)" for w
    using assms split_on_units [OF that] by (intro lower_capitalize) blast
  then have "map (\<lambda>w. toLowerCase (title_word w)) (split_on 32 l) = split_on 32 l"
    by (simp add: title_word_capitalize map_idI)
  then show ?thesis
    by (simp add: lower_join o_def join_split)
qed

subsection \<open>trim\<close>

lemma last_dropWhile: "dropWhile P xs \<noteq> [] \<Longrightarrow> last (dropWhile P xs) = last xs"
  by (induction xs) (auto split: if_splits)

lemma trim_ends:
  assumes "trim s \<noteq> []"
  shows "\<not> isWhiteSpace (hd (trim s))" and "\<not> isWhiteSpace (last (trim s))"
proof -
  let ?a = "dropWhile isWhiteSpace s"
  let ?b = "dropWhile isWhiteSpace (rev ?a)"
  have b: "?b \<noteq> []" using assms by (simp add: trim_def)
  have a: "?a \<noteq> []"
  proof
    assume e: "?a = []"
    have "?b = []" unfolding e by simp
    with b show False by simp
  qed
  have "\<not> isWhiteSpace (hd ?b)" using b by (rule hd_dropWhile)
  then show "\<not> isWhiteSpace (last (trim s))"
    using b by (simp add: trim_def last_rev)
  have "last ?b = last (rev ?a)" using b by (rule last_dropWhile)
  also have "\<dots> = hd ?a" using a by (simp add: last_rev)
  finally have "hd (trim s) = hd ?a"
    using b by (simp add: trim_def hd_rev)
  moreover have "\<not> isWhiteSpace (hd ?a)" using a by (rule hd_dropWhile)
  ultimately show "\<not> isWhiteSpace (hd (trim s))" by simp
qed

lemma trim_fixed:
  assumes "s \<noteq> []" "\<not> isWhiteSpace (hd s)" "\<not> isWhiteSpace (last s)"
  shows "trim s = s"
proof -
  have "dropWhile isWhiteSpace s = s"
    using assms(1,2) by (cases s) auto
  moreover have "dropWhile isWhiteSpace (rev s) = rev s"
    using assms(1,3) by (cases "rev s") (auto simp: hd_rev [symmetric])
  ultimately show ?thesis by (simp add: trim_def)
qed

subsection \<open>What validity gives\<close>

lemma test_all_class:
  assumes "test False (Seq [Bol, Plus k, Eol]) s"
  shows "\<forall>y \<in> set s. in_class k y"
proof -
  from assms obtain i where i: "ends False (Seq [Bol, Plus k, Eol]) s i \<noteq> []"
    by (auto simp: test_def list_ex_iff)
  then have i0: "i = 0"
    by (cases "i = 0") simp_all
  let ?m = "length (takeWhile (in_class k) s)"
  from i i0 obtain j where "j \<in> set [1..<Suc ?m]" "j = length s"
    by (auto split: if_splits)
  then have "length s \<le> ?m" by auto
  moreover have "?m \<le> length s" by (rule length_takeWhile_le)
  ultimately have "length (takeWhile (in_class k) s) = length s" by simp
  then have "takeWhile (in_class k) s = s"
    by (metis takeWhile_dropWhile_id append_self_conv length_0_conv length_append add_cancel_right_right)
  then show ?thesis
    by (metis set_takeWhileD)
qed

lemma test_whole_class:
  "test False (Seq [Bol, Plus k, Eol]) s \<longleftrightarrow> s \<noteq> [] \<and> (\<forall>y \<in> set s. in_class k y)"
proof
  assume t: "test False (Seq [Bol, Plus k, Eol]) s"
  then obtain i where i: "ends False (Seq [Bol, Plus k, Eol]) s i \<noteq> []"
    by (auto simp: test_def list_ex_iff)
  then have i0: "i = 0"
    by (cases "i = 0") simp_all
  from i i0 obtain j where "j \<in> set [1..<Suc (length (takeWhile (in_class k) s))]" "j = length s"
    by (auto split: if_splits)
  then have "s \<noteq> []" by auto
  with t show "s \<noteq> [] \<and> (\<forall>y \<in> set s. in_class k y)"
    using test_all_class by blast
next
  assume a: "s \<noteq> [] \<and> (\<forall>y \<in> set s. in_class k y)"
  then have tw: "takeWhile (in_class k) s = s" by simp
  have "length s \<in> set [1..<Suc (length s)]"
    using a by (cases s) auto
  then have "ends False (Seq [Bol, Plus k, Eol]) s 0 \<noteq> []"
    by (auto simp: tw)
  then show "test False (Seq [Bol, Plus k, Eol]) s"
    by (auto simp: test_def list_ex_iff)
qed

lemma valid_city_units:
  assumes "isValidCityName c"
  shows "trim c \<noteq> []" and "\<forall>y \<in> set (trim c). in_class CityChar y"
proof -
  from assms have len: "\<not> (length (trim c) < 3 \<or> length (trim c) > 40)"
    by (simp add: isValidCityName_def Let_def split: if_splits)
  from assms have cls: "test False (Seq [Bol, Plus CityChar, Eol]) (trim c)"
    by (simp add: isValidCityName_def Let_def split: if_splits)
  from len show "trim c \<noteq> []" by auto
  from cls show "\<forall>y \<in> set (trim c). in_class CityChar y" by (rule test_all_class)
qed

lemma corrections_units:
  assumes "map_of CITY_CORRECTIONS k = Some v"
  shows "v \<noteq> []" and "\<forall>y \<in> set v. in_class CityChar y"
    and "\<not> isWhiteSpace (hd v)" and "\<not> isWhiteSpace (last v)"
proof -
  have ok: "w \<noteq> [] \<and> (\<forall>y \<in> set w. in_class CityChar y)
      \<and> \<not> isWhiteSpace (hd w) \<and> \<not> isWhiteSpace (last w)"
    if "w \<in> snd ` set CITY_CORRECTIONS" for w
    using that by (simp add: CITY_CORRECTIONS_def js_def isWhiteSpace_def, elim disjE) simp_all
  from assms have "v \<in> snd ` set CITY_CORRECTIONS"
    by (metis map_of_SomeD image_eqI snd_conv)
  from ok [OF this] show "v \<noteq> []" and "\<forall>y \<in> set v. in_class CityChar y"
    and "\<not> isWhiteSpace (hd v)" and "\<not> isWhiteSpace (last v)"
    by blast+
qed

lemma prototype_key_head:
  assumes "k \<in> set OBJECT_PROTOTYPE_KEYS"
  shows "k \<noteq> [] \<and> ((97 \<le> hd k \<and> hd k \<le> 122) \<or> hd k = 95)"
  using assms by (simp add: OBJECT_PROTOTYPE_KEYS_def js_def, elim disjE) simp_all

lemma title_head:
  assumes "l \<noteq> []" "hd l \<noteq> 32"
  shows "\<exists>rest. join_with 32 (map title_word (split_on 32 l)) = toUpperCase_unit (hd l) @ rest"
proof -
  from assms obtain x l' where l: "l = x # l'" and x: "x \<noteq> 32"
    by (cases l) auto
  obtain w ws where sp: "split_on 32 l' = w # ws"
    using split_on_nonempty [of 32 l'] by (cases "split_on 32 l'") auto
  have "split_on 32 l = (x # w) # ws"
    using l x sp by simp
  then have "join_with 32 (map title_word (split_on 32 l))
      = join_with 32 ((toUpperCase_unit x @ w) # map title_word ws)"
    by (simp add: title_word_capitalize capitalize_simps)
  also have "\<dots> = toUpperCase_unit x @ join_with 32 (w # map title_word ws)"
    by (rule join_append_head)
  finally show ?thesis using l by auto
qed

lemma toUpperCase_unit_nonempty: "toUpperCase_unit x \<noteq> []"
  by (simp add: toUpperCase_unit_def)

lemma title_fixed:
  assumes ne: "c1 \<noteq> []"
    and units: "\<forall>y \<in> set c1. in_class CityChar y"
    and h: "\<not> isWhiteSpace (hd c1)" and t: "\<not> isWhiteSpace (last c1)"
    and n: "n = join_with 32 (map title_word (split_on 32 (toLowerCase c1)))"
    and off: "map_of CITY_CORRECTIONS n = None"
  shows "normalizeCityName n = Inr n"
proof -
  let ?l = "toLowerCase c1"
  have plain: "\<forall>x \<in> set ?l. toLowerCase_unit x = x \<and> x \<noteq> 181 \<and> x \<noteq> 223 \<and> x \<noteq> 255"
    using units city_unit_special by (auto simp: toLowerCase_def lower_unit_idem)
  have low: "toLowerCase n = ?l"
    unfolding n using plain by (rule lower_title)
  have lne: "?l \<noteq> []" using ne by (simp add: toLowerCase_def)
  then have nne: "n \<noteq> []" using low by (auto simp: toLowerCase_def)
  have "hd ?l = toLowerCase_unit (hd n)" "last ?l = toLowerCase_unit (last n)"
    using nne low [symmetric] by (simp_all add: toLowerCase_def hd_map last_map)
  moreover have "hd ?l = toLowerCase_unit (hd c1)" "last ?l = toLowerCase_unit (last c1)"
    using ne by (simp_all add: toLowerCase_def hd_map last_map)
  ultimately have "\<not> isWhiteSpace (hd n)" "\<not> isWhiteSpace (last n)"
    using h t by (metis lower_unit_space)+
  with nne have tr: "trim n = n" by (rule trim_fixed)
  have hl: "hd ?l = toLowerCase_unit (hd c1)"
    using ne by (simp add: toLowerCase_def hd_map)
  have "\<not> isWhiteSpace (hd ?l)"
    using h hl by (simp add: lower_unit_space)
  then have "hd ?l \<noteq> 32" by (auto simp: isWhiteSpace_def)
  with lne obtain rest where "n = toUpperCase_unit (hd ?l) @ rest"
    unfolding n using title_head by blast
  then have "hd n \<in> set (toUpperCase_unit (toLowerCase_unit (hd c1)))"
    using toUpperCase_unit_nonempty [of "hd ?l"] hl by (simp add: hd_append)
  moreover have "in_class CityChar (hd c1)" using ne units by simp
  ultimately have "\<not> (97 \<le> hd n \<and> hd n \<le> 122) \<and> hd n \<noteq> 95"
    using h city_unit_upper_head by blast
  then have "n \<notin> set OBJECT_PROTOTYPE_KEYS"
    using prototype_key_head by blast
  with off have "get_property CITY_CORRECTIONS n = Undefined"
    by (simp add: get_property_def)
  then have "normalizeCityName n = Inr (join_with 32 (map title_word (split_on 32 (toLowerCase n))))"
    by (simp add: normalizeCityName_def Let_def tr)
  then show ?thesis
    using low n by simp
qed

lemmas rx_eval = test_def js_def canonicalize_def word_before_def word_at_def is_word_char_def
  isDecimalDigit_def isWhiteSpace_def bannedPatterns_def trim_def

lemmas norm_eval = normalizeCityName_def get_property_def CITY_CORRECTIONS_def
  OBJECT_PROTOTYPE_KEYS_def title_word_def capitalize_def toUpperCase_def toLowerCase_def toLowerCase_unit_def
  toUpperCase_unit_def trim_def isWhiteSpace_def js_def Let_def

text \<open>
  C3 (as amended). For every valid city string \<open>c\<close> on which \<open>normalizeCityName\<close>
  returns a string \<open>n\<close>: if \<open>n\<close> is not a key of the correction table, then
  \<open>normalizeCityName n\<close> returns \<open>n\<close> again.
\<close>

theorem normalize_idempotent_off_table:
  assumes "isValidCityName c"
    and "normalizeCityName c = Inr n"
    and "map_of CITY_CORRECTIONS n = None"
  shows "normalizeCityName n = Inr n"
proof -
  note v = valid_city_units [OF assms(1)]
  show ?thesis
  proof (cases "get_property CITY_CORRECTIONS (trim c)")
    case Undefined
    with assms(2) have "n = join_with 32 (map title_word (split_on 32 (toLowerCase (trim c))))"
      by (simp add: normalizeCityName_def Let_def)
    with v trim_ends [OF v(1)] assms(3) show ?thesis
      by (intro title_fixed [of "trim c"]) simp_all
  next
    case (OwnString w)
    then have m: "map_of CITY_CORRECTIONS (trim c) = Some w"
      by (auto simp: get_property_def split: option.splits if_splits)
    note cu = corrections_units [OF m]
    from OwnString assms(2) cu(1)
    have "n = join_with 32 (map title_word (split_on 32 (toLowerCase w)))"
      by (simp add: normalizeCityName_def Let_def)
    with cu assms(3) show ?thesis
      by (intro title_fixed [of w]) simp_all
  next
    case Inherited
    with assms(2) show ?thesis
      by (simp add: normalizeCityName_def Let_def)
  qed
qed

theorem normalize_idempotent_off_table_witness:
  "isValidCityName (js ''  north BAY '')
   \<and> normalizeCityName (js ''  north BAY '') = Inr (js ''North Bay'')
   \<and> map_of CITY_CORRECTIONS (js ''North Bay'') = None
   \<and> normalizeCityName (js ''North Bay'') = Inr (js ''North Bay'')"
proof -
  have a: "isValidCityName (js ''  north BAY '')"
    by (simp add: isValidCityName_def rx_eval)
  have b: "normalizeCityName (js ''  north BAY '') = Inr (js ''North Bay'')"
    by (simp add: norm_eval)
  have c: "map_of CITY_CORRECTIONS (js ''North Bay'') = None"
    by (simp add: CITY_CORRECTIONS_def js_def)
  from a b c normalize_idempotent_off_table [OF a b c] show ?thesis by blast
qed

text \<open>
  C3 as stated fails: the table is consulted before the case is folded, and with the exact
  spelling of its keys. "toront" is valid and is normalized to "Toront", which is a
  key: normalizing once more gives "Toronto".
\<close>

theorem normalize_not_idempotent_counterexample:
  "isValidCityName (js ''toront'')
   \<and> normalizeCityName (js ''toront'') = Inr (js ''Toront'')
   \<and> normalizeCityName (js ''Toront'') = Inr (js ''Toronto'')"
proof (intro conjI)
  show "isValidCityName (js ''toront'')"
    by (simp add: isValidCityName_def rx_eval)
  show "normalizeCityName (js ''toront'') = Inr (js ''Toront'')"
    by (simp add: norm_eval)
  show "normalizeCityName (js ''Toront'') = Inr (js ''Toronto'')"
    by (simp add: norm_eval)
qed

text \<open>
  A valid name that is an inherited member of the table makes \<open>normalizeCityName\<close> throw.
\<close>

lemma normalize_prototype_key:
  "isValidCityName (js ''constructor'')
   \<and> normalizeCityName (js ''constructor'') = Inl TypeError"
  by (simp add: isValidCityName_def rx_eval norm_eval)

section \<open>Filtering (both explorer components)\<close>

text \<open>
  A record of the dataset. Every field is optional in the component's type; the two NOC
  fields exist in \<^verbatim>\<open>src/components/LMIAExplorer.tsx\<close> only. The approval count is a
  JavaScript number, modelled as an integer.
\<close>

record LMIARecord =
  Employer_Name :: "jsstring option"
  City :: "jsstring option"
  Province :: "jsstring option"
  Program_Stream :: "jsstring option"
  NOC_Code :: "jsstring option"
  NOC_Title :: "jsstring option"
  Positive_LMIAs :: "int option"

text \<open>
  The component's state that filtering and pagination read: one \<^verbatim>\<open>useState\<close> cell per
  field (\<open>noc\<close> in \<^verbatim>\<open>src/components/LMIAExplorer.tsx\<close> only), with their initial values.
\<close>

record explorer =
  employer :: jsstring
  province :: jsstring
  city :: jsstring
  noc :: jsstring
  stream :: jsstring
  minLMIAs :: jsstring
  currentPage :: int
  rowsPerPage :: int

definition initial_explorer :: explorer where
  "initial_explorer =
     \<lparr>employer = [], province = js ''ALL'', city = js ''ALL'', noc = [], stream = js ''ALL'',
      minLMIAs = js ''1'', currentPage = 1, rowsPerPage = 100\<rparr>"

text \<open>\<^verbatim>\<open>parseInt(minLMIAs) || 1\<close>: \<open>NaN\<close> and 0 are falsy.\<close>

definition minLMIAsNum :: "jsstring \<Rightarrow> int" where
  "minLMIAsNum minLMIAs_str =
     (case parseInt minLMIAs_str of None \<Rightarrow> 1 | Some n \<Rightarrow> if n = 0 then 1 else n)"

text \<open>\<^verbatim>\<open>x || ""\<close> on an optional string and \<^verbatim>\<open>x ?? 0\<close> on an optional number.\<close>

definition or_empty :: "jsstring option \<Rightarrow> jsstring" where
  "or_empty v = (case v of None \<Rightarrow> [] | Some s \<Rightarrow> s)"

definition or_zero :: "int option \<Rightarrow> int" where
  "or_zero v = (case v of None \<Rightarrow> 0 | Some n \<Rightarrow> n)"

text \<open>
  The arrow function that \<^verbatim>\<open>rows.filter\<close> is given in \<^verbatim>\<open>part_004\<close>, and the filtered
  list.
\<close>

definition matches :: "explorer \<Rightarrow> LMIARecord \<Rightarrow> bool" where
  "matches st r =
     (if province st \<noteq> js ''ALL'' \<and> Province r \<noteq> Some (province st) then False
      else if city st \<noteq> js ''ALL'' \<and> City r \<noteq> Some (city st) then False
      else if stream st \<noteq> js ''ALL'' \<and> Program_Stream r \<noteq> Some (stream st) then False
      else if or_zero (Positive_LMIAs r) < minLMIAsNum (minLMIAs st) then False
      else if trim (employer st) \<noteq> []
              \<and> \<not> str_includes (toLowerCase (or_empty (Employer_Name r)))
                    (toLowerCase (trim (employer st))) then False
      else True)"

definition filtered :: "LMIARecord list \<Rightarrow> explorer \<Rightarrow> LMIARecord list" where
  "filtered rows st = filter (matches st) rows"

text \<open>The same in \<^verbatim>\<open>src/components/LMIAExplorer.tsx\<close>, which also searches the NOC fields.\<close>

definition matches_tsx :: "explorer \<Rightarrow> LMIARecord \<Rightarrow> bool" where
  "matches_tsx st r =
     (if province st \<noteq> js ''ALL'' \<and> Province r \<noteq> Some (province st) then False
      else if city st \<noteq> js ''ALL'' \<and> City r \<noteq> Some (city st) then False
      else if stream st \<noteq> js ''ALL'' \<and> Program_Stream r \<noteq> Some (stream st) then False
      else if or_zero (Positive_LMIAs r) < minLMIAsNum (minLMIAs st) then False
      else if trim (employer st) \<noteq> []
              \<and> \<not> str_includes (toLowerCase (or_empty (Employer_Name r)))
                    (toLowerCase (trim (employer st))) then False
      else if trim (noc st) \<noteq> []
              \<and> (let searchTerm = toLowerCase (trim (noc st));
                      nocCode = toLowerCase (or_empty (NOC_Code r));
                      nocTitle = toLowerCase (or_empty (NOC_Title r))
                  in \<not> str_includes nocCode searchTerm \<and> \<not> str_includes nocTitle searchTerm)
           then False
      else True)"

definition filtered_tsx :: "LMIARecord list \<Rightarrow> explorer \<Rightarrow> LMIARecord list" where
  "filtered_tsx rows st = filter (matches_tsx st) rows"

text \<open>\<^verbatim>\<open>/^\d+$/.test(value)\<close>: one or more decimal digits and nothing else.\<close>

definition digits_only :: "jsstring \<Rightarrow> bool" where
  "digits_only v = test False (Seq [Bol, Plus Digit, Eol]) v"

section \<open>Properties of filtering\<close>

lemma digits_only_iff: "digits_only v \<longleftrightarrow> v \<noteq> [] \<and> list_all isDecimalDigit v"
  by (simp add: digits_only_def test_whole_class list_all_iff)

lemma matches_iff:
  "matches st r \<longleftrightarrow>
     (province st = js ''ALL'' \<or> Province r = Some (province st))
   \<and> (city st = js ''ALL'' \<or> City r = Some (city st))
   \<and> (stream st = js ''ALL'' \<or> Program_Stream r = Some (stream st))
   \<and> minLMIAsNum (minLMIAs st) \<le> or_zero (Positive_LMIAs r)
   \<and> (trim (employer st) = []
        \<or> str_includes (toLowerCase (or_empty (Employer_Name r)))
             (toLowerCase (trim (employer st))))"
  unfolding matches_def by (simp only: split: if_split) (simp add: not_less)

lemma matches_tsx_iff:
  "matches_tsx st r \<longleftrightarrow>
     matches st r
   \<and> (trim (noc st) = []
        \<or> str_includes (toLowerCase (or_empty (NOC_Code r))) (toLowerCase (trim (noc st)))
        \<or> str_includes (toLowerCase (or_empty (NOC_Title r))) (toLowerCase (trim (noc st))))"
  unfolding matches_tsx_def matches_def Let_def by (simp only: split: if_split) blast

lemma minLMIAsNum_zero: "minLMIAsNum (js ''0'') = 1"
  by (simp add: minLMIAsNum_def parseInt_def js_def isWhiteSpace_def radixDigit_def)

lemma minLMIAsNum_one: "minLMIAsNum (js ''1'') = 1"
  by (simp add: minLMIAsNum_def parseInt_def js_def isWhiteSpace_def radixDigit_def)

lemma minLMIAsNum_empty: "minLMIAsNum [] = 1"
  by (simp add: minLMIAsNum_def parseInt_def)

lemma parseInt_no_digit:
  assumes "\<forall>c \<in> set s. \<not> isDecimalDigit c"
  shows "parseInt s = None"
proof -
  define S where "S = dropWhile isWhiteSpace s"
  define S1 where "S1 = (if S \<noteq> [] \<and> (hd S = 43 \<or> hd S = 45) then tl S else S)"
  have "set S \<subseteq> set s"
    unfolding S_def by (auto dest: set_dropWhileD)
  moreover have "set S1 \<subseteq> set S"
    unfolding S1_def by (auto dest: list.set_sel(2))
  ultimately have nd: "\<forall>c \<in> set S1. \<not> isDecimalDigit c"
    using assms by blast
  have nohex: "take 2 S1 \<noteq> [48, 120]" "take 2 S1 \<noteq> [48, 88]"
  proof -
    have "48 \<notin> set (take 2 S1)"
      using nd by (auto simp: isDecimalDigit_def dest: in_set_takeD)
    then show "take 2 S1 \<noteq> [48, 120]" "take 2 S1 \<noteq> [48, 88]"
      by auto
  qed
  have "radixDigit 10 c = None" if "c \<in> set S1" for c
    using nd that by (auto simp: radixDigit_def isDecimalDigit_def Let_def)
  then have "takeWhile (\<lambda>c. radixDigit 10 c \<noteq> None) S1 = []"
    by (cases S1) auto
  then show ?thesis
    using nohex unfolding parseInt_def Let_def S1_def S_def by simp
qed

lemma minLMIAsNum_no_digit:
  "\<forall>c \<in> set s. \<not> isDecimalDigit c \<Longrightarrow> minLMIAsNum s = 1"
  by (simp add: minLMIAsNum_def parseInt_no_digit)

lemma parseInt_digits:
  assumes "digits_only v"
  shows "\<exists>k. parseInt v = Some (int k)"
proof -
  from assms obtain d ds where v: "v = d # ds" and d: "isDecimalDigit d"
    and ds: "list_all isDecimalDigit ds"
    by (cases v) (auto simp: digits_only_iff)
  have ws: "\<not> isWhiteSpace d"
    using d by (auto simp: isDecimalDigit_def isWhiteSpace_def)
  have sg: "d \<noteq> 43" "d \<noteq> 45"
    using d by (auto simp: isDecimalDigit_def)
  have nohex: "take 2 v \<noteq> [48, 120]" "take 2 v \<noteq> [48, 88]"
    using ds v by (cases ds; auto simp: isDecimalDigit_def)+
  have "d - 48 < 10"
    using d by (simp add: isDecimalDigit_def) arith
  then have "radixDigit 10 d \<noteq> None"
    using d by (simp add: radixDigit_def isDecimalDigit_def)
  then have z: "takeWhile (\<lambda>c. radixDigit 10 c \<noteq> None) v \<noteq> []"
    by (simp add: v)
  have dw: "dropWhile isWhiteSpace v = v"
    using ws by (simp add: v)
  have h: "v \<noteq> []" "hd v \<noteq> 43" "hd v \<noteq> 45"
    using sg by (simp_all add: v)
  have "parseInt v =
      Some (int (foldl (\<lambda>a c. a * 10 + the (radixDigit 10 c)) 0
                  (takeWhile (\<lambda>c. radixDigit 10 c \<noteq> None) v)))"
    unfolding parseInt_def Let_def dw using h nohex z by simp
  then show ?thesis by blast
qed

lemma minLMIAsNum_accepted:
  assumes "v = [] \<or> digits_only v"
  shows "1 \<le> minLMIAsNum v"
proof (cases "v = []")
  case True
  then show ?thesis by (simp add: minLMIAsNum_empty)
next
  case False
  with assms obtain k where "parseInt v = Some (int k)"
    using parseInt_digits by blast
  then show ?thesis by (simp add: minLMIAsNum_def)
qed

lemma length_filter_mono:
  assumes "\<And>x. x \<in> set xs \<Longrightarrow> P x \<Longrightarrow> Q x"
  shows "length (filter P xs) \<le> length (filter Q xs)"
  using assms
proof (induction xs)
  case Nil
  show ?case by simp
next
  case (Cons x xs)
  then have "length (filter P xs) \<le> length (filter Q xs)" by simp
  moreover have "P x \<Longrightarrow> Q x" using Cons.prems by simp
  ultimately show ?case by auto
qed

text \<open>
  C1. The threshold parsed from "0", from the empty string and from any string without a
  decimal digit is 1; so on every record set, with the other criteria fixed, the threshold
  input "0" yields the same filtered list as "1", in either component, and no record of
  that list has an approval count of 0.
\<close>

theorem threshold_zero_is_one:
  "minLMIAsNum (js ''0'') = 1
   \<and> minLMIAsNum [] = 1
   \<and> ((\<forall>c \<in> set s. \<not> isDecimalDigit c) \<longrightarrow> minLMIAsNum s = 1)
   \<and> filtered rows (st\<lparr>minLMIAs := js ''0''\<rparr>) = filtered rows (st\<lparr>minLMIAs := js ''1''\<rparr>)
   \<and> filtered_tsx rows (st\<lparr>minLMIAs := js ''0''\<rparr>) = filtered_tsx rows (st\<lparr>minLMIAs := js ''1''\<rparr>)
   \<and> (\<forall>r \<in> set (filtered rows (st\<lparr>minLMIAs := js ''0''\<rparr>)). or_zero (Positive_LMIAs r) \<noteq> 0)
   \<and> (\<forall>r \<in> set (filtered_tsx rows (st\<lparr>minLMIAs := js ''0''\<rparr>)). or_zero (Positive_LMIAs r) \<noteq> 0)"
proof (intro conjI)
  show "minLMIAsNum (js ''0'') = 1" by (rule minLMIAsNum_zero)
  show "minLMIAsNum [] = 1" by (rule minLMIAsNum_empty)
  show "(\<forall>c \<in> set s. \<not> isDecimalDigit c) \<longrightarrow> minLMIAsNum s = 1"
    using minLMIAsNum_no_digit by blast
  have m: "matches (st\<lparr>minLMIAs := js ''0''\<rparr>) = matches (st\<lparr>minLMIAs := js ''1''\<rparr>)"
    by (rule ext) (simp add: matches_iff minLMIAsNum_zero minLMIAsNum_one)
  have mt: "matches_tsx (st\<lparr>minLMIAs := js ''0''\<rparr>) = matches_tsx (st\<lparr>minLMIAs := js ''1''\<rparr>)"
    by (rule ext) (simp add: matches_tsx_iff m)
  show "filtered rows (st\<lparr>minLMIAs := js ''0''\<rparr>) = filtered rows (st\<lparr>minLMIAs := js ''1''\<rparr>)"
    by (simp only: filtered_def m)
  show "filtered_tsx rows (st\<lparr>minLMIAs := js ''0''\<rparr>) = filtered_tsx rows (st\<lparr>minLMIAs := js ''1''\<rparr>)"
    by (simp only: filtered_tsx_def mt)
  have z: "or_zero (Positive_LMIAs r) \<noteq> 0" if "matches (st\<lparr>minLMIAs := js ''0''\<rparr>) r" for r
    using that by (simp add: matches_iff minLMIAsNum_zero)
  show "\<forall>r \<in> set (filtered rows (st\<lparr>minLMIAs := js ''0''\<rparr>)). or_zero (Positive_LMIAs r) \<noteq> 0"
    using z by (simp add: filtered_def)
  show "\<forall>r \<in> set (filtered_tsx rows (st\<lparr>minLMIAs := js ''0''\<rparr>)). or_zero (Positive_LMIAs r) \<noteq> 0"
    using z by (simp add: filtered_tsx_def matches_tsx_iff)
qed

theorem threshold_zero_is_one_witness:
  "minLMIAsNum (js ''n/a'') = 1
   \<and> filtered
        [\<lparr>Employer_Name = Some (js ''Acme''), City = Some (js ''Toronto''), Province = Some (js ''ON''),
          Program_Stream = Some (js ''High Wage''), NOC_Code = None, NOC_Title = None,
          Positive_LMIAs = Some 0\<rparr>,
         \<lparr>Employer_Name = Some (js ''Birch''), City = Some (js ''Ottawa''), Province = Some (js ''ON''),
          Program_Stream = Some (js ''Low Wage''), NOC_Code = None, NOC_Title = None,
          Positive_LMIAs = Some 7\<rparr>]
        (initial_explorer\<lparr>minLMIAs := js ''0''\<rparr>)
     = [\<lparr>Employer_Name = Some (js ''Birch''), City = Some (js ''Ottawa''), Province = Some (js ''ON''),
          Program_Stream = Some (js ''Low Wage''), NOC_Code = None, NOC_Title = None,
          Positive_LMIAs = Some 7\<rparr>]"
proof -
  let ?r0 = "\<lparr>Employer_Name = Some (js ''Acme''), City = Some (js ''Toronto''),
          Province = Some (js ''ON''), Program_Stream = Some (js ''High Wage''),
          NOC_Code = None, NOC_Title = None, Positive_LMIAs = Some 0\<rparr>"
  let ?r7 = "\<lparr>Employer_Name = Some (js ''Birch''), City = Some (js ''Ottawa''),
          Province = Some (js ''ON''), Program_Stream = Some (js ''Low Wage''),
          NOC_Code = None, NOC_Title = None, Positive_LMIAs = Some 7\<rparr>"
  note t = threshold_zero_is_one [of "js ''n/a''" "[?r0, ?r7]" initial_explorer]
  have "\<forall>c \<in> set (js ''n/a''). \<not> isDecimalDigit c"
    by (simp add: js_def isDecimalDigit_def)
  with t have a: "minLMIAsNum (js ''n/a'') = 1" by blast
  have "filtered [?r0, ?r7] (initial_explorer\<lparr>minLMIAs := js ''1''\<rparr>) = [?r7]"
    by (simp add: filtered_def matches_iff initial_explorer_def minLMIAsNum_one or_zero_def
        trim_def)
  with t have "filtered [?r0, ?r7] (initial_explorer\<lparr>minLMIAs := js ''0''\<rparr>) = [?r7]"
    by simp
  with a show ?thesis by blast
qed

lemma filtered_length_mono:
  assumes "\<And>r. matches a r \<Longrightarrow> matches b r"
  shows "length (filtered rows a) \<le> length (filtered rows b)"
  unfolding filtered_def using assms by (intro length_filter_mono) blast

lemma filtered_tsx_length_mono:
  assumes "\<And>r. matches_tsx a r \<Longrightarrow> matches_tsx b r"
  shows "length (filtered_tsx rows a) \<le> length (filtered_tsx rows b)"
  unfolding filtered_tsx_def using assms by (intro length_filter_mono) blast

lemma matches_threshold_mono:
  assumes "d = js ''1'' \<or> d = []" and "v = [] \<or> digits_only v"
    and "matches (st\<lparr>minLMIAs := v\<rparr>) r"
  shows "matches (st\<lparr>minLMIAs := d\<rparr>) r"
proof -
  have "minLMIAsNum d = 1"
    using assms(1) minLMIAsNum_one minLMIAsNum_empty by blast
  moreover have "1 \<le> minLMIAsNum v"
    using assms(2) by (rule minLMIAsNum_accepted)
  ultimately show ?thesis
    using assms(3) by (simp add: matches_iff)
qed

text \<open>
  C6. On every record set and for every filter state, turning one criterion from inactive
  (\<open>ALL\<close> for province, city and stream; an employer or NOC search text that is empty
  after trimming; the threshold input "1" or "") to any active value, with the other
  criteria fixed, never lengthens the filtered list. A threshold input is a string the
  change handler accepts: empty or decimal digits only.
\<close>

theorem filtering_monotone:
  "length (filtered rows (st\<lparr>province := p\<rparr>)) \<le> length (filtered rows (st\<lparr>province := js ''ALL''\<rparr>))
   \<and> length (filtered rows (st\<lparr>city := c\<rparr>)) \<le> length (filtered rows (st\<lparr>city := js ''ALL''\<rparr>))
   \<and> length (filtered rows (st\<lparr>stream := s\<rparr>)) \<le> length (filtered rows (st\<lparr>stream := js ''ALL''\<rparr>))
   \<and> (trim e0 = [] \<longrightarrow>
        length (filtered rows (st\<lparr>employer := e\<rparr>)) \<le> length (filtered rows (st\<lparr>employer := e0\<rparr>)))
   \<and> ((d = js ''1'' \<or> d = []) \<and> (v = [] \<or> digits_only v) \<longrightarrow>
        length (filtered rows (st\<lparr>minLMIAs := v\<rparr>)) \<le> length (filtered rows (st\<lparr>minLMIAs := d\<rparr>)))
   \<and> length (filtered_tsx rows (st\<lparr>province := p\<rparr>))
        \<le> length (filtered_tsx rows (st\<lparr>province := js ''ALL''\<rparr>))
   \<and> length (filtered_tsx rows (st\<lparr>city := c\<rparr>))
        \<le> length (filtered_tsx rows (st\<lparr>city := js ''ALL''\<rparr>))
   \<and> length (filtered_tsx rows (st\<lparr>stream := s\<rparr>))
        \<le> length (filtered_tsx rows (st\<lparr>stream := js ''ALL''\<rparr>))
   \<and> (trim e0 = [] \<longrightarrow>
        length (filtered_tsx rows (st\<lparr>employer := e\<rparr>))
          \<le> length (filtered_tsx rows (st\<lparr>employer := e0\<rparr>)))
   \<and> (trim n0 = [] \<longrightarrow>
        length (filtered_tsx rows (st\<lparr>noc := n\<rparr>)) \<le> length (filtered_tsx rows (st\<lparr>noc := n0\<rparr>)))
   \<and> ((d = js ''1'' \<or> d = []) \<and> (v = [] \<or> digits_only v) \<longrightarrow>
        length (filtered_tsx rows (st\<lparr>minLMIAs := v\<rparr>))
          \<le> length (filtered_tsx rows (st\<lparr>minLMIAs := d\<rparr>)))"
proof (intro conjI impI)
  show "length (filtered rows (st\<lparr>province := p\<rparr>))
      \<le> length (filtered rows (st\<lparr>province := js ''ALL''\<rparr>))"
    by (rule filtered_length_mono) (simp add: matches_iff)
  show "length (filtered rows (st\<lparr>city := c\<rparr>)) \<le> length (filtered rows (st\<lparr>city := js ''ALL''\<rparr>))"
    by (rule filtered_length_mono) (simp add: matches_iff)
  show "length (filtered rows (st\<lparr>stream := s\<rparr>))
      \<le> length (filtered rows (st\<lparr>stream := js ''ALL''\<rparr>))"
    by (rule filtered_length_mono) (simp add: matches_iff)
  show "length (filtered_tsx rows (st\<lparr>province := p\<rparr>))
      \<le> length (filtered_tsx rows (st\<lparr>province := js ''ALL''\<rparr>))"
    by (rule filtered_tsx_length_mono) (simp add: matches_tsx_iff matches_iff)
  show "length (filtered_tsx rows (st\<lparr>city := c\<rparr>))
      \<le> length (filtered_tsx rows (st\<lparr>city := js ''ALL''\<rparr>))"
    by (rule filtered_tsx_length_mono) (simp add: matches_tsx_iff matches_iff)
  show "length (filtered_tsx rows (st\<lparr>stream := s\<rparr>))
      \<le> length (filtered_tsx rows (st\<lparr>stream := js ''ALL''\<rparr>))"
    by (rule filtered_tsx_length_mono) (simp add: matches_tsx_iff matches_iff)
next
  assume "trim e0 = []"
  then show "length (filtered rows (st\<lparr>employer := e\<rparr>))
      \<le> length (filtered rows (st\<lparr>employer := e0\<rparr>))"
    by (intro filtered_length_mono) (simp add: matches_iff)
next
  assume "trim e0 = []"
  then show "length (filtered_tsx rows (st\<lparr>employer := e\<rparr>))
      \<le> length (filtered_tsx rows (st\<lparr>employer := e0\<rparr>))"
    by (intro filtered_tsx_length_mono) (simp add: matches_tsx_iff matches_iff)
next
  assume "trim n0 = []"
  then show "length (filtered_tsx rows (st\<lparr>noc := n\<rparr>))
      \<le> length (filtered_tsx rows (st\<lparr>noc := n0\<rparr>))"
    by (intro filtered_tsx_length_mono) (simp add: matches_tsx_iff matches_iff)
next
  assume a: "(d = js ''1'' \<or> d = []) \<and> (v = [] \<or> digits_only v)"
  then show "length (filtered rows (st\<lparr>minLMIAs := v\<rparr>))
      \<le> length (filtered rows (st\<lparr>minLMIAs := d\<rparr>))"
    by (intro filtered_length_mono matches_threshold_mono [of d v]) simp_all
next
  assume a: "(d = js ''1'' \<or> d = []) \<and> (v = [] \<or> digits_only v)"
  have "matches_tsx (st\<lparr>minLMIAs := d\<rparr>) r" if "matches_tsx (st\<lparr>minLMIAs := v\<rparr>) r" for r
    using that a matches_threshold_mono [of d v st r] by (simp add: matches_tsx_iff)
  then show "length (filtered_tsx rows (st\<lparr>minLMIAs := v\<rparr>))
      \<le> length (filtered_tsx rows (st\<lparr>minLMIAs := d\<rparr>))"
    by (rule filtered_tsx_length_mono)
qed

theorem filtering_monotone_witness:
  "trim (js '' '') = [] \<and> digits_only (js ''5'')
   \<and> length (filtered
        [\<lparr>Employer_Name = Some (js ''Acme''), City = Some (js ''Toronto''), Province = Some (js ''ON''),
          Program_Stream = Some (js ''High Wage''), NOC_Code = None, NOC_Title = None,
          Positive_LMIAs = Some 3\<rparr>,
         \<lparr>Employer_Name = Some (js ''Birch''), City = Some (js ''Ottawa''), Province = Some (js ''ON''),
          Program_Stream = Some (js ''Low Wage''), NOC_Code = None, NOC_Title = None,
          Positive_LMIAs = Some 7\<rparr>]
        (initial_explorer\<lparr>minLMIAs := js ''5''\<rparr>))
     \<le> length (filtered
        [\<lparr>Employer_Name = Some (js ''Acme''), City = Some (js ''Toronto''), Province = Some (js ''ON''),
          Program_Stream = Some (js ''High Wage''), NOC_Code = None, NOC_Title = None,
          Positive_LMIAs = Some 3\<rparr>,
         \<lparr>Employer_Name = Some (js ''Birch''), City = Some (js ''Ottawa''), Province = Some (js ''ON''),
          Program_Stream = Some (js ''Low Wage''), NOC_Code = None, NOC_Title = None,
          Positive_LMIAs = Some 7\<rparr>]
        (initial_explorer\<lparr>minLMIAs := js ''1''\<rparr>))
   \<and> length (filtered_tsx
        [\<lparr>Employer_Name = Some (js ''Acme''), City = Some (js ''Toronto''), Province = Some (js ''ON''),
          Program_Stream = Some (js ''High Wage''), NOC_Code = None, NOC_Title = None,
          Positive_LMIAs = Some 3\<rparr>,
         \<lparr>Employer_Name = Some (js ''Birch''), City = Some (js ''Ottawa''), Province = Some (js ''ON''),
          Program_Stream = Some (js ''Low Wage''), NOC_Code = None, NOC_Title = None,
          Positive_LMIAs = Some 7\<rparr>]
        (initial_explorer\<lparr>employer := js ''bir''\<rparr>))
     \<le> length (filtered_tsx
        [\<lparr>Employer_Name = Some (js ''Acme''), City = Some (js ''Toronto''), Province = Some (js ''ON''),
          Program_Stream = Some (js ''High Wage''), NOC_Code = None, NOC_Title = None,
          Positive_LMIAs = Some 3\<rparr>,
         \<lparr>Employer_Name = Some (js ''Birch''), City = Some (js ''Ottawa''), Province = Some (js ''ON''),
          Program_Stream = Some (js ''Low Wage''), NOC_Code = None, NOC_Title = None,
          Positive_LMIAs = Some 7\<rparr>]
        (initial_explorer\<lparr>employer := js '' ''\<rparr>))"
proof -
  let ?rows = "[\<lparr>Employer_Name = Some (js ''Acme''), City = Some (js ''Toronto''),
          Province = Some (js ''ON''), Program_Stream = Some (js ''High Wage''),
          NOC_Code = None, NOC_Title = None, Positive_LMIAs = Some 3\<rparr>,
         \<lparr>Employer_Name = Some (js ''Birch''), City = Some (js ''Ottawa''),
          Province = Some (js ''ON''), Program_Stream = Some (js ''Low Wage''),
          NOC_Code = None, NOC_Title = None, Positive_LMIAs = Some 7\<rparr>]"
  have h1: "trim (js '' '') = []"
    by (simp add: trim_def js_def isWhiteSpace_def)
  have h2: "digits_only (js ''5'')"
    by (simp add: digits_only_iff js_def isDecimalDigit_def)
  note t = filtering_monotone [where rows = ?rows and st = initial_explorer
      and p = "js ''ON''" and c = "js ''Ottawa''" and s = "js ''Low Wage''"
      and ?e0.0 = "js '' ''" and e = "js ''bir''" and d = "js ''1''" and v = "js ''5''"
      and ?n0.0 = "js '' ''" and n = "js ''21''"]
  from t h1 h2 show ?thesis by blast
qed

section \<open>Event handlers of the explorer\<close>

text \<open>
  The two explorer components differ in the filter (NOC search) and in the page count.
\<close>

datatype component = Part004 | Tsx

definition page_count :: "component \<Rightarrow> LMIARecord list \<Rightarrow> explorer \<Rightarrow> int" where
  "page_count cmpt rows st =
     (case cmpt of
        Part004 \<Rightarrow> totalPages (filtered rows st) (rowsPerPage st)
      | Tsx \<Rightarrow> totalPages_tsx (filtered_tsx rows st) (rowsPerPage st))"

definition handleClearFilters :: "explorer \<Rightarrow> explorer" where
  "handleClearFilters st =
     st\<lparr>employer := [], province := js ''ALL'', city := js ''ALL'', noc := [],
        stream := js ''ALL'', minLMIAs := js ''1'', currentPage := 1\<rparr>"

definition handleMinLMIAsChange :: "explorer \<Rightarrow> jsstring \<Rightarrow> explorer" where
  "handleMinLMIAsChange st v =
     (if v = [] \<or> digits_only v then st\<lparr>minLMIAs := v, currentPage := 1\<rparr> else st)"

definition handlePageChange :: "component \<Rightarrow> LMIARecord list \<Rightarrow> explorer \<Rightarrow> int \<Rightarrow> explorer" where
  "handlePageChange cmpt rows st newPage =
     st\<lparr>currentPage := max 1 (min newPage (page_count cmpt rows st))\<rparr>"

definition handleRowsPerPageChange :: "explorer \<Rightarrow> jsstring \<Rightarrow> explorer" where
  "handleRowsPerPageChange st v =
     st\<lparr>rowsPerPage := (case parseInt v of None \<Rightarrow> 100 | Some n \<Rightarrow> if n = 0 then 100 else n),
        currentPage := 1\<rparr>"

definition handleProvinceChange :: "explorer \<Rightarrow> jsstring \<Rightarrow> explorer" where
  "handleProvinceChange st newProvince =
     st\<lparr>province := newProvince, city := js ''ALL'', currentPage := 1\<rparr>"

text \<open>
  The events of the filter panel and the pagination controls, each with the handler the
  JSX attaches to it. \<open>NocInput\<close> exists in \<^verbatim>\<open>src/components/LMIAExplorer.tsx\<close> only.
\<close>

datatype event =
    EmployerInput jsstring
  | EmployerClear
  | ProvinceSelect jsstring
  | CitySelect jsstring
  | QuickCity jsstring
  | NocInput jsstring
  | StreamSelect jsstring
  | MinLMIAsInput jsstring
  | MinLMIAsClear
  | ClearAll
  | PageClick int
  | RowsPerPageSelect jsstring

fun handle :: "component \<Rightarrow> LMIARecord list \<Rightarrow> explorer \<Rightarrow> event \<Rightarrow> explorer" where
  "handle cmpt rows st (EmployerInput v) = st\<lparr>employer := v\<rparr>"
| "handle cmpt rows st EmployerClear = st\<lparr>employer := []\<rparr>"
| "handle cmpt rows st (ProvinceSelect v) = handleProvinceChange st v"
| "handle cmpt rows st (CitySelect v) = st\<lparr>city := v\<rparr>"
| "handle cmpt rows st (QuickCity c) = st\<lparr>province := js ''ALL'', city := c\<rparr>"
| "handle cmpt rows st (NocInput v) = st\<lparr>noc := v\<rparr>"
| "handle cmpt rows st (StreamSelect v) = st\<lparr>stream := v\<rparr>"
| "handle cmpt rows st (MinLMIAsInput v) = handleMinLMIAsChange st v"
| "handle cmpt rows st MinLMIAsClear = st\<lparr>minLMIAs := js ''1''\<rparr>"
| "handle cmpt rows st ClearAll = handleClearFilters st"
| "handle cmpt rows st (PageClick newPage) = handlePageChange cmpt rows st newPage"
| "handle cmpt rows st (RowsPerPageSelect v) = handleRowsPerPageChange st v"

text \<open>
  After a handler has run, the effect \<^verbatim>\<open>useEffect(() => setCurrentPage(1), [employer,
  province, city, noc, stream, minLMIAs])\<close> resets the page when one of its dependencies
  has changed.
\<close>

definition filter_deps :: "explorer \<Rightarrow> jsstring list" where
  "filter_deps st = [employer st, province st, city st, noc st, stream st, minLMIAs st]"

definition dispatch :: "component \<Rightarrow> LMIARecord list \<Rightarrow> explorer \<Rightarrow> event \<Rightarrow> explorer" where
  "dispatch cmpt rows st ev =
     (let st' = handle cmpt rows st ev
      in if filter_deps st' \<noteq> filter_deps st then st'\<lparr>currentPage := 1\<rparr> else st')"

section \<open>Properties of the event handlers\<close>

lemma digits_only_one: "digits_only (js ''1'')"
  by (simp add: digits_only_iff js_def isDecimalDigit_def)

lemma handle_minLMIAs_form:
  assumes "minLMIAs st = [] \<or> digits_only (minLMIAs st)"
  shows "minLMIAs (handle cmpt rows st ev) = [] \<or> digits_only (minLMIAs (handle cmpt rows st ev))"
  using assms digits_only_one
  by (cases ev)
     (auto simp: handleMinLMIAsChange_def handleClearFilters_def handlePageChange_def
        handleRowsPerPageChange_def handleProvinceChange_def)

lemma dispatch_minLMIAs_form:
  assumes "minLMIAs st = [] \<or> digits_only (minLMIAs st)"
  shows "minLMIAs (dispatch cmpt rows st ev) = [] \<or> digits_only (minLMIAs (dispatch cmpt rows st ev))"
  using handle_minLMIAs_form [OF assms, of cmpt rows ev]
  by (simp add: dispatch_def Let_def)

lemma run_minLMIAs_form:
  assumes "minLMIAs st = [] \<or> digits_only (minLMIAs st)"
  shows "minLMIAs (foldl (dispatch cmpt rows) st evs) = []
         \<or> digits_only (minLMIAs (foldl (dispatch cmpt rows) st evs))"
  using assms
proof (induction evs arbitrary: st)
  case Nil
  then show ?case by simp
next
  case (Cons ev evs)
  from Cons.prems have "minLMIAs (dispatch cmpt rows st ev) = []
      \<or> digits_only (minLMIAs (dispatch cmpt rows st ev))"
    by (rule dispatch_minLMIAs_form)
  then show ?case
    using Cons.IH by simp
qed

text \<open>
  C9. From the initial state, whose threshold input is "1", after every sequence of
  events the stored threshold input is empty or consists of decimal digits only. The
  change handler stores a new value, and resets the current page to 1, if the value is
  empty or digits only; any other value leaves the state as it is.
\<close>

theorem minLMIAs_invariant:
  "(minLMIAs (foldl (dispatch cmpt rows) initial_explorer evs) = []
      \<or> digits_only (minLMIAs (foldl (dispatch cmpt rows) initial_explorer evs)))
   \<and> (v = [] \<or> digits_only v \<longrightarrow>
        minLMIAs (dispatch cmpt rows st (MinLMIAsInput v)) = v
        \<and> currentPage (dispatch cmpt rows st (MinLMIAsInput v)) = 1)
   \<and> (v \<noteq> [] \<and> \<not> digits_only v \<longrightarrow> dispatch cmpt rows st (MinLMIAsInput v) = st)"
proof (intro conjI impI)
  have "digits_only (minLMIAs initial_explorer)"
    by (simp add: initial_explorer_def digits_only_one)
  then show "minLMIAs (foldl (dispatch cmpt rows) initial_explorer evs) = []
      \<or> digits_only (minLMIAs (foldl (dispatch cmpt rows) initial_explorer evs))"
    by (intro run_minLMIAs_form) simp
next
  assume "v = [] \<or> digits_only v"
  then show "minLMIAs (dispatch cmpt rows st (MinLMIAsInput v)) = v"
    and "currentPage (dispatch cmpt rows st (MinLMIAsInput v)) = 1"
    by (simp_all add: dispatch_def handleMinLMIAsChange_def Let_def)
next
  assume "v \<noteq> [] \<and> \<not> digits_only v"
  then show "dispatch cmpt rows st (MinLMIAsInput v) = st"
    by (simp add: dispatch_def handleMinLMIAsChange_def Let_def)
qed

theorem minLMIAs_invariant_witness:
  "digits_only (js ''25'')
   \<and> minLMIAs (foldl (dispatch Part004 []) initial_explorer
        [MinLMIAsInput (js ''25''), MinLMIAsInput (js ''-3''), MinLMIAsInput (js ''2.5'')]) = js ''25''
   \<and> currentPage (dispatch Part004 [] (initial_explorer\<lparr>currentPage := 4\<rparr>)
        (MinLMIAsInput (js ''25''))) = 1
   \<and> dispatch Part004 [] (initial_explorer\<lparr>currentPage := 4\<rparr>) (MinLMIAsInput (js ''-3''))
       = initial_explorer\<lparr>currentPage := 4\<rparr>"
proof -
  let ?st = "initial_explorer\<lparr>currentPage := 4\<rparr>"
  have d: "digits_only (js ''25'')" "js ''-3'' \<noteq> []" "\<not> digits_only (js ''-3'')"
    "\<not> digits_only (js ''2.5'')" "js ''2.5'' \<noteq> []"
    by (simp_all add: digits_only_iff js_def isDecimalDigit_def)
  note a = minLMIAs_invariant [of Part004 "[]" "[]" "js ''25''" ?st]
  note b = minLMIAs_invariant [of Part004 "[]" "[]" "js ''-3''"]
  note c = minLMIAs_invariant [of Part004 "[]" "[]" "js ''2.5''"]
  have "foldl (dispatch Part004 []) initial_explorer
        [MinLMIAsInput (js ''25''), MinLMIAsInput (js ''-3''), MinLMIAsInput (js ''2.5'')]
      = dispatch Part004 [] initial_explorer (MinLMIAsInput (js ''25''))"
    using b [of "dispatch Part004 [] initial_explorer (MinLMIAsInput (js ''25''))"]
      c [of "dispatch Part004 [] initial_explorer (MinLMIAsInput (js ''25''))"] d
    by simp
  moreover have "minLMIAs (dispatch Part004 [] initial_explorer (MinLMIAsInput (js ''25''))) = js ''25''"
    using minLMIAs_invariant [of Part004 "[]" "[]" "js ''25''" initial_explorer] d by blast
  ultimately show ?thesis
    using a b [of ?st] d by simp
qed

section \<open>The local-storage auth provider (\<^verbatim>\<open>part_003\<close>)\<close>

text \<open>
  The users persisted under the key \<^verbatim>\<open>lmia_users\<close> of local storage, the session user,
  and the provider's state: the stored list as \<^verbatim>\<open>getUsers()\<close> reads it and the \<open>user\<close>
  cell of \<^verbatim>\<open>useState\<close>.
\<close>

record StoredUser =
  stored_name :: jsstring
  stored_email :: jsstring
  stored_password :: jsstring

record User =
  user_email :: jsstring
  user_name :: jsstring

record auth =
  lmia_users :: "StoredUser list"
  user :: "User option"

text \<open>
  \<open>login\<close> and \<open>signup\<close> return the error message, or \<open>null\<close> (\<open>None\<close>) on success,
  together with the new state.
\<close>

definition login :: "auth \<Rightarrow> jsstring \<Rightarrow> jsstring \<Rightarrow> jsstring option \<times> auth" where
  "login st email password =
     (case find (\<lambda>u. toLowerCase (stored_email u) = toLowerCase email
                      \<and> stored_password u = password) (lmia_users st) of
        None \<Rightarrow> (Some (js ''Invalid email or password''), st)
      | Some found \<Rightarrow>
          (None, st\<lparr>user := Some \<lparr>user_email = stored_email found, user_name = stored_name found\<rparr>\<rparr>))"

definition signup :: "auth \<Rightarrow> jsstring \<Rightarrow> jsstring \<Rightarrow> jsstring \<Rightarrow> jsstring option \<times> auth" where
  "signup st name email password =
     (if trim name = [] then (Some (js ''Name is required''), st)
      else if trim email = [] then (Some (js ''Email is required''), st)
      else if length password < 6 then (Some (js ''Password must be at least 6 characters''), st)
      else if list_ex (\<lambda>u. toLowerCase (stored_email u) = toLowerCase email) (lmia_users st) then
        (Some (js ''An account with this email already exists''), st)
      else
        (None,
         st\<lparr>lmia_users := lmia_users st @
               [\<lparr>stored_name = trim name, stored_email = toLowerCase (trim email),
                 stored_password = password\<rparr>],
            user := Some \<lparr>user_email = toLowerCase (trim email), user_name = trim name\<rparr>\<rparr>))"

definition logout :: "auth \<Rightarrow> auth" where
  "logout st = st\<lparr>user := None\<rparr>"

section \<open>Properties of the local-storage auth provider\<close>

lemma toLowerCase_idem: "toLowerCase (toLowerCase s) = toLowerCase s"
  by (induction s) (auto simp: toLowerCase_def toLowerCase_unit_def)

lemma signup_rejects_match:
  assumes "u \<in> set (lmia_users st)" "toLowerCase (stored_email u) = toLowerCase email"
  shows "snd (signup st name email password) = st"
    and "fst (signup st name email password) \<noteq> None"
proof -
  have "list_ex (\<lambda>u. toLowerCase (stored_email u) = toLowerCase email) (lmia_users st)"
    using assms by (auto simp: list_ex_iff)
  then show "snd (signup st name email password) = st"
    and "fst (signup st name email password) \<noteq> None"
    by (simp_all add: signup_def)
qed

lemma signup_distinct_when_trimmed:
  assumes "distinct (map (\<lambda>u. toLowerCase (stored_email u)) (lmia_users st))"
    and "trim email = email"
  shows "distinct (map (\<lambda>u. toLowerCase (stored_email u))
           (lmia_users (snd (signup st name email password))))"
  using assms
  by (auto simp: signup_def toLowerCase_idem list_ex_iff)

text \<open>
  C10. The stored user list is claimed never to hold two users whose emails are equal
  ignoring case. \<open>signup\<close> compares the email as typed with the stored ones but stores
  it trimmed: with a leading blank, the email of an existing user is accepted and stored
  a second time.
\<close>

theorem signup_duplicate_email:
  "signup
     \<lparr>lmia_users = [\<lparr>stored_name = js ''Ann'', stored_email = js ''a@b.com'',
                      stored_password = js ''secret1''\<rparr>],
      user = None\<rparr>
     (js ''Bob'') (js '' a@b.com'') (js ''secret2'')
   = (None,
      \<lparr>lmia_users = [\<lparr>stored_name = js ''Ann'', stored_email = js ''a@b.com'',
                       stored_password = js ''secret1''\<rparr>,
                     \<lparr>stored_name = js ''Bob'', stored_email = js ''a@b.com'',
                       stored_password = js ''secret2''\<rparr>],
       user = Some \<lparr>user_email = js ''a@b.com'', user_name = js ''Bob''\<rparr>\<rparr>)"
  by (simp add: signup_def trim_def toLowerCase_def toLowerCase_unit_def isWhiteSpace_def js_def)

end
